theory Spec2Isabelle
  imports Complex_Main
begin

section \<open>Values, errors and rounding\<close>

text \<open>
  The two processors read aggregates from PostgreSQL. Every numeric column of the
  queries is the result of \<^verbatim>\<open>ROUND(AVG(...), n)\<close> or a stored numeric, which the database
  drivers (asyncpg, psycopg2) hand to Python as \<^verbatim>\<open>decimal.Decimal\<close>, exactly, and SQL NULL
  as \<^verbatim>\<open>None\<close>. A Decimal is modelled by the rational number it denotes and a nullable
  column by an option. Decimal arithmetic runs in Python's default context: every result
  is rounded to 28 significant digits, ties to even, and \<^verbatim>\<open>round\<close> raises when its result
  needs more than 28 digits. The exponent limits of the context (999999) are beyond any
  quotient of PostgreSQL numerics (at most 131072 digits before and 16383 after the
  point) and are not modelled; neither are the special values NaN and Infinity, which the
  data model of the specification excludes, nor the sign of zero.
\<close>

datatype error =
    DivisionByZero        \<comment> \<open>\<^verbatim>\<open>decimal.DivisionByZero\<close>: x / 0 with x non-zero\<close>
  | InvalidOperation      \<comment> \<open>\<^verbatim>\<open>decimal.InvalidOperation\<close>: 0 / 0, or a quantize beyond 28 digits\<close>
  | ZeroDivisionError     \<comment> \<open>int / 0\<close>
  | TypeError             \<comment> \<open>an operand is \<^verbatim>\<open>None\<close>\<close>
  | DatabaseError         \<comment> \<open>\<^verbatim>\<open>psycopg2.Error\<close>: the server rejects a statement\<close>

text \<open>
  The Python values that occur in the reports. \<open>PyFormat v s\<close> is the f-string
  \<^verbatim>\<open>f"{v}s"\<close>: the interpolated value followed by the literal text; the rendering of the
  number by \<^verbatim>\<open>str\<close> is not modelled. A dict is an association list in insertion order.
\<close>

datatype pyval =
    PyNone
  | PyInt int
  | PyDec rat
  | PyFloat rat
  | PyStr string
  | PyFormat pyval string
  | PyList "pyval list"
  | PyDict "(string \<times> pyval) list"

type_synonym pydict = "(string \<times> pyval) list"

text \<open>Rounding to the nearest integer, ties to the even one (ROUND_HALF_EVEN).\<close>

definition round_half_even :: "rat \<Rightarrow> int" where
  "round_half_even x =
     (let f = \<lfloor>x\<rfloor>; d = x - of_int f
      in if d < 1 / 2 then f
         else if 1 / 2 < d then f + 1
         else if even f then f else f + 1)"

text \<open>
  The number of decimal digits of a positive integer, the power of ten of an integer
  exponent, and the adjusted exponent of a non-zero number: the exponent of its leading
  digit, \<open>\<lfloor>log\<^sub>1\<^sub>0 \<bar>x\<bar>\<rfloor>\<close>.
\<close>

function ndigits :: "int \<Rightarrow> nat" where
  "ndigits n = (if n < 10 then 1 else Suc (ndigits (n div 10)))"
  by pat_completeness auto
termination
  by (relation "measure nat") auto

declare ndigits.simps [simp del]

definition pow10 :: "int \<Rightarrow> rat" where
  "pow10 e = (if 0 \<le> e then 10 ^ nat e else 1 / 10 ^ nat (- e))"

definition adjusted :: "rat \<Rightarrow> int" where
  "adjusted x =
     (if 1 \<le> \<bar>x\<bar> then int (ndigits \<lfloor>\<bar>x\<bar>\<rfloor>) - 1
      else - int (ndigits (\<lceil>1 / \<bar>x\<bar>\<rceil> - 1)))"

text \<open>
  The rounding of the default context: to 28 significant digits, that is to a multiple
  of ten to the power of the adjusted exponent minus 27, ties to even.
\<close>

definition ctx_round :: "rat \<Rightarrow> rat" where
  "ctx_round x =
     (if x = 0 then 0
      else let q = pow10 (adjusted x - 27)
           in of_int (round_half_even (x / q)) * q)"

text \<open>
  Python's \<^verbatim>\<open>round(x, n)\<close> on a Decimal is \<^verbatim>\<open>x.quantize(Decimal('1E-n'))\<close> in the default
  context: ties to even, and InvalidOperation when the coefficient of the result has
  more than 28 digits.
\<close>

definition py_round :: "rat \<Rightarrow> nat \<Rightarrow> error + rat" where
  "py_round x n =
     (let k = round_half_even (x * 10 ^ n)
      in if 10 ^ 28 \<le> \<bar>k\<bar> then Inl InvalidOperation else Inr (of_int k / 10 ^ n))"

text \<open>
  PostgreSQL's \<^verbatim>\<open>ROUND(numeric, n)\<close> rounds ties away from zero.
\<close>

definition sql_round :: "rat \<Rightarrow> nat \<Rightarrow> rat" where
  "sql_round x n = sgn x * of_int \<lfloor>\<bar>x\<bar> * 10 ^ n + 1 / 2\<rfloor> / 10 ^ n"

text \<open>
  Division, subtraction and multiplication of two Decimals. \<^verbatim>\<open>None\<close> as an operand
  raises TypeError; a zero divisor raises DivisionByZero, or InvalidOperation when the
  dividend is zero as well. The operands are taken as they are (a Decimal read from the
  database may hold more than 28 digits); the result is rounded by the context.
\<close>

definition dec_truediv :: "rat option \<Rightarrow> rat option \<Rightarrow> error + rat" where
  "dec_truediv a b =
     (case (a, b) of
        (Some x, Some y) \<Rightarrow>
          if y = 0 then (if x = 0 then Inl InvalidOperation else Inl DivisionByZero)
          else Inr (ctx_round (x / y))
      | _ \<Rightarrow> Inl TypeError)"

definition dec_sub :: "rat option \<Rightarrow> rat option \<Rightarrow> error + rat" where
  "dec_sub a b =
     (case (a, b) of
        (Some x, Some y) \<Rightarrow> Inr (ctx_round (x - y))
      | _ \<Rightarrow> Inl TypeError)"

definition dec_mul :: "rat \<Rightarrow> rat \<Rightarrow> rat" where
  "dec_mul x y = ctx_round (x * y)"

section \<open>brain\_processor.py: the comparison of RAG and context dumping\<close>

subsection \<open>The performance query\<close>

text \<open>
  A row of \<^verbatim>\<open>bronze.raw_queries rq LEFT JOIN bronze.raw_performance_metrics rpm\<close>, with the
  columns the query reads. Each column is nullable (the right side of a left join is
  NULL where no metrics row matches).
\<close>

record raw_row =
  processing_method :: "string option"
  response_time_ms :: "rat option"
  cost_usd :: "rat option"
  quality_score :: "rat option"
  user_satisfaction :: "rat option"

text \<open>
  A row of the table \<^verbatim>\<open>project_two.chi_n_nguyen_analytics\<close> that
  project\_2\_2\_brain\_processor.py reads, with the columns its queries name.
\<close>

record analytics_row =
  context_method :: "string option"
  model_name :: "string option"
  total_interactions :: "int option"
  avg_response_time_ms :: "rat option"
  avg_cost_usd :: "rat option"
  avg_quality_score :: "rat option"
  success_rate_percent :: "rat option"
  performance_rank :: "int option"

text \<open>
  A row of the best and worst performers query of project\_2\_2\_brain\_processor.py
  (\<^verbatim>\<open>category\<close> is the literal \<^verbatim>\<open>'BEST'\<close> or \<^verbatim>\<open>'WORST'\<close>).
\<close>

record performer =
  category :: string
  context_method :: "string option"
  model_name :: "string option"
  avg_response_time_ms :: "rat option"
  avg_cost_usd :: "rat option"

text \<open>A row of the performance query's result: one per group.\<close>

record perf_row =
  processing_method :: "string option"
  query_count :: nat
  avg_response_time_ms :: "rat option"
  avg_cost_usd :: "rat option"
  avg_quality_score :: "rat option"
  avg_user_satisfaction :: "rat option"

text \<open>
  SQL \<^verbatim>\<open>AVG\<close> skips NULLs and is NULL over no values; \<^verbatim>\<open>ROUND\<close> of NULL is NULL. The
  mean is the exact quotient. PostgreSQL computes it at a result scale that depends on
  the declared scale of the column (the table definitions are not among the sources) and
  keeps at least 16 significant digits: the two agree wherever the exact mean has no
  more digits than that scale, as in the scenario of the specification. The theorems on
  the three factors below are stated for every list of fetched rows, whatever query
  produced it.
\<close>

definition sql_avg :: "rat option list \<Rightarrow> rat option" where
  "sql_avg xs =
     (let vs = List.map_filter (\<lambda>x. x) xs
      in if vs = [] then None else Some (sum_list vs / of_nat (length vs)))"

definition sql_round_opt :: "rat option \<Rightarrow> nat \<Rightarrow> rat option" where
  "sql_round_opt x n = map_option (\<lambda>v. sql_round v n) x"

definition group_row :: "raw_row list \<Rightarrow> string option \<Rightarrow> perf_row" where
  "group_row rows m =
     (let g = filter (\<lambda>r. raw_row.processing_method r = m) rows
      in \<lparr> processing_method = m,
           query_count = length g,
           avg_response_time_ms = sql_round_opt (sql_avg (map response_time_ms g)) 2,
           avg_cost_usd = sql_round_opt (sql_avg (map cost_usd g)) 6,
           avg_quality_score = sql_round_opt (sql_avg (map quality_score g)) 3,
           avg_user_satisfaction = sql_round_opt (sql_avg (map user_satisfaction g)) 2 \<rparr>)"

text \<open>
  \<^verbatim>\<open>SELECT ... GROUP BY processing_method\<close>: one row per distinct method (NULL is a group
  of its own). SQL leaves the order of the groups open; the model lists them in the order
  of \<open>remdups\<close>, and the code looks rows up by method only.
\<close>

definition performance_data :: "raw_row list \<Rightarrow> perf_row list" where
  "performance_data rows =
     map (group_row rows) (remdups (map raw_row.processing_method rows))"

subsection \<open>analyze\_rag\_vs\_context\_dumping\<close>

text \<open>\<^verbatim>\<open>dict(row)\<close>: the six columns of a result row, in the order of the select list.\<close>

definition opt_str :: "string option \<Rightarrow> pyval" where
  "opt_str s = (case s of None \<Rightarrow> PyNone | Some t \<Rightarrow> PyStr t)"

definition opt_dec :: "rat option \<Rightarrow> pyval" where
  "opt_dec d = (case d of None \<Rightarrow> PyNone | Some x \<Rightarrow> PyDec x)"

definition dict_of_row :: "perf_row \<Rightarrow> pydict" where
  "dict_of_row r =
     [(''processing_method'', opt_str (processing_method r)),
      (''query_count'', PyInt (int (query_count r))),
      (''avg_response_time_ms'', opt_dec (avg_response_time_ms r)),
      (''avg_cost_usd'', opt_dec (avg_cost_usd r)),
      (''avg_quality_score'', opt_dec (avg_quality_score r)),
      (''avg_user_satisfaction'', opt_dec (avg_user_satisfaction r))]"

text \<open>
  \<^verbatim>\<open>next((row for row in performance_data if row['processing_method'] == m), None)\<close>.
\<close>

definition find_method :: "string \<Rightarrow> perf_row list \<Rightarrow> perf_row option" where
  "find_method m rows = find (\<lambda>row. processing_method row = Some m) rows"

text \<open>
  The three factors of the dict display, evaluated in the order they are written; the
  first exception ends the evaluation.
\<close>

definition performance_improvement_factor :: "perf_row \<Rightarrow> perf_row \<Rightarrow> error + rat" where
  "performance_improvement_factor rag_data context_data =
     (case dec_truediv (avg_response_time_ms context_data) (avg_response_time_ms rag_data) of
        Inl e \<Rightarrow> Inl e
      | Inr q \<Rightarrow> py_round q 1)"

definition cost_reduction_factor :: "perf_row \<Rightarrow> perf_row \<Rightarrow> error + rat" where
  "cost_reduction_factor rag_data context_data =
     (case dec_truediv (avg_cost_usd context_data) (avg_cost_usd rag_data) of
        Inl e \<Rightarrow> Inl e
      | Inr q \<Rightarrow> py_round q 1)"

definition quality_improvement_percent :: "perf_row \<Rightarrow> perf_row \<Rightarrow> error + rat" where
  "quality_improvement_percent rag_data context_data =
     (case dec_sub (avg_quality_score rag_data) (avg_quality_score context_data) of
        Inl e \<Rightarrow> Inl e
      | Inr d \<Rightarrow>
          (case dec_truediv (Some d) (avg_quality_score context_data) of
             Inl e \<Rightarrow> Inl e
           | Inr q \<Rightarrow> py_round (dec_mul q 100) 2))"

text \<open>
  Lines 118 to 139, on the fetched rows. A result row is an asyncpg Record of six
  fields, which is truthy, so \<^verbatim>\<open>if rag_data and context_data\<close> tests that both rows were
  found. An exception is logged and raised again: the caller sees it (\<open>Inl\<close>).
\<close>

definition performance_improvements :: "perf_row list \<Rightarrow> error + pydict" where
  "performance_improvements rows =
     (case (find_method ''RAG'' rows, find_method ''CONTEXT_DUMP'' rows) of
        (Some rag_data, Some context_data) \<Rightarrow>
          (case performance_improvement_factor rag_data context_data of
             Inl e \<Rightarrow> Inl e
           | Inr p \<Rightarrow>
          (case cost_reduction_factor rag_data context_data of
             Inl e \<Rightarrow> Inl e
           | Inr c \<Rightarrow>
          (case quality_improvement_percent rag_data context_data of
             Inl e \<Rightarrow> Inl e
           | Inr q \<Rightarrow>
               Inr [(''rag_metrics'', PyDict (dict_of_row rag_data)),
                    (''context_dump_metrics'', PyDict (dict_of_row context_data)),
                    (''performance_improvement_factor'', PyDec p),
                    (''cost_reduction_factor'', PyDec c),
                    (''quality_improvement_percent'', PyDec q)])))
      | _ \<Rightarrow> Inr [])"

text \<open>The whole method: the query, then the comparison.\<close>

definition analyze_rag_vs_context_dumping :: "raw_row list \<Rightarrow> error + pydict" where
  "analyze_rag_vs_context_dumping db = performance_improvements (performance_data db)"

subsection \<open>generate\_executive\_summary\<close>

text \<open>\<^verbatim>\<open>d.get(k, default)\<close>.\<close>

definition dict_get :: "pydict \<Rightarrow> string \<Rightarrow> pyval \<Rightarrow> pyval" where
  "dict_get d k dflt = (case map_of d k of None \<Rightarrow> dflt | Some v \<Rightarrow> v)"

text \<open>
  Arithmetic on the values a report holds. The operands here are Decimals, or the ints
  of a default or a literal; any other operand is answered with TypeError.
  int / int is Python's float division; it occurs only as 1 / 1. The product of line 159
  is taken exactly: the factors of a report have one decimal place and at most 28 digits,
  and for the non-negative factors of non-negative means a product that the context
  would round lies above the cap of 900 before and after the rounding.
\<close>

definition num_of :: "pyval \<Rightarrow> rat option" where
  "num_of v = (case v of PyInt i \<Rightarrow> Some (of_int i) | PyDec x \<Rightarrow> Some x
               | PyFloat x \<Rightarrow> Some x | _ \<Rightarrow> None)"

definition py_mul :: "pyval \<Rightarrow> pyval \<Rightarrow> error + pyval" where
  "py_mul a b =
     (case (a, b) of
        (PyDec x, PyDec y) \<Rightarrow> Inr (PyDec (x * y))
      | (PyDec x, PyInt j) \<Rightarrow> Inr (PyDec (x * of_int j))
      | (PyInt i, PyDec y) \<Rightarrow> Inr (PyDec (of_int i * y))
      | (PyInt i, PyInt j) \<Rightarrow> Inr (PyInt (i * j))
      | _ \<Rightarrow> Inl TypeError)"

text \<open>\<^verbatim>\<open>min(a, b)\<close> keeps \<open>a\<close> unless \<open>b\<close> is smaller.\<close>

definition py_min :: "pyval \<Rightarrow> pyval \<Rightarrow> error + pyval" where
  "py_min a b =
     (case (num_of a, num_of b) of
        (Some x, Some y) \<Rightarrow> Inr (if y < x then b else a)
      | _ \<Rightarrow> Inl TypeError)"

text \<open>\<^verbatim>\<open>min(performance_factor * cost_factor * 20, 900)\<close>, line 159.\<close>

definition roi_percent :: "pyval \<Rightarrow> pyval \<Rightarrow> error + pyval" where
  "roi_percent performance_factor cost_factor =
     (case py_mul performance_factor cost_factor of
        Inl e \<Rightarrow> Inl e
      | Inr pc \<Rightarrow>
          (case py_mul pc (PyInt 20) of
             Inl e \<Rightarrow> Inl e
           | Inr x \<Rightarrow> py_min x (PyInt 900)))"

definition business_impact :: pydict where
  "business_impact =
     [(''operational_efficiency'', PyStr ''Outstanding''),
      (''cost_optimization'', PyStr ''Exceptional''),
      (''user_satisfaction'', PyStr ''High''),
      (''market_position'', PyStr ''Leading'')]"

definition strategic_recommendations :: "pyval list" where
  "strategic_recommendations =
     [PyStr ''Scale RAG implementation across all use cases'',
      PyStr ''Invest in advanced vector optimization'',
      PyStr ''Develop personalized context adaptation'',
      PyStr ''Establish center of excellence for Brain Architecture'']"

text \<open>
  The method reads the clock: \<open>now\<close> is the text of \<^verbatim>\<open>datetime.now().isoformat()\<close> at the
  call. An exception of the analysis or of the arithmetic is logged and raised again.
\<close>

definition generate_executive_summary :: "string \<Rightarrow> raw_row list \<Rightarrow> error + pydict" where
  "generate_executive_summary now db =
     (case analyze_rag_vs_context_dumping db of
        Inl e \<Rightarrow> Inl e
      | Inr analysis \<Rightarrow>
          if analysis = [] then Inr [(''error'', PyStr ''No data available for analysis'')]
          else
            (let performance_factor = dict_get analysis ''performance_improvement_factor'' (PyInt 0);
                 cost_factor = dict_get analysis ''cost_reduction_factor'' (PyInt 0);
                 quality_improvement = dict_get analysis ''quality_improvement_percent'' (PyInt 0)
             in case roi_percent performance_factor cost_factor of
                  Inl e \<Rightarrow> Inl e
                | Inr roi \<Rightarrow>
                    Inr [(''timestamp'', PyStr now),
                         (''key_achievements'', PyDict
                            [(''performance_improvement'',
                                PyFormat performance_factor ''x faster than context dumping''),
                             (''cost_reduction'',
                                PyFormat cost_factor ''x cost reduction achieved''),
                             (''quality_improvement'',
                                PyFormat quality_improvement ''% quality increase''),
                             (''roi_delivered'',
                                PyFormat roi ''% return on investment'')]),
                         (''business_impact'', PyDict business_impact),
                         (''strategic_recommendations'', PyList strategic_recommendations),
                         (''raw_analysis'', PyDict analysis)]))"

section \<open>project\_2\_2\_brain\_processor.py: get\_performance\_analysis\<close>















section \<open>Reading a report\<close>

text \<open>
  What a caller reads at key \<open>k\<close> of the report a call returned: nothing when the call
  raised or the report has no such key.
\<close>

definition report_entry :: "error + pydict \<Rightarrow> string \<Rightarrow> pyval option" where
  "report_entry r k = (case r of Inl e \<Rightarrow> None | Inr d \<Rightarrow> map_of d k)"

text \<open>The outcome of a call without the entry \<^verbatim>\<open>'timestamp'\<close> of its report.\<close>

definition without_timestamp :: "error + pydict \<Rightarrow> error + pydict" where
  "without_timestamp r =
     (case r of Inl e \<Rightarrow> Inl e
      | Inr d \<Rightarrow> Inr (filter (\<lambda>kv. fst kv \<noteq> ''timestamp'') d))"

section \<open>The factors in the words of the specification\<close>

text \<open>
  The specification words the three factors by the roles of the methods, not by their
  names: slower mean response time over faster mean response time, and higher mean cost
  over lower mean cost, each rounded to 1 decimal; better mean quality minus baseline
  mean quality, over the baseline, times 100, rounded to 2 decimals. Rounding a number
  to \<open>n\<close> places is \<open>round_places\<close>, with no limit on the digits.
\<close>

definition round_places :: "rat \<Rightarrow> nat \<Rightarrow> rat" where
  "round_places x n = of_int (round_half_even (x * 10 ^ n)) / 10 ^ n"

definition spec_performance_improvement_factor :: "rat \<Rightarrow> rat \<Rightarrow> rat" where
  "spec_performance_improvement_factor rag_mean context_mean =
     round_places (max rag_mean context_mean / min rag_mean context_mean) 1"

definition spec_cost_reduction_factor :: "rat \<Rightarrow> rat \<Rightarrow> rat" where
  "spec_cost_reduction_factor rag_mean context_mean =
     round_places (max rag_mean context_mean / min rag_mean context_mean) 1"

definition spec_quality_improvement_percent :: "rat \<Rightarrow> rat \<Rightarrow> rat" where
  "spec_quality_improvement_percent rag_mean context_mean =
     round_places ((max rag_mean context_mean - min rag_mean context_mean)
                     / min rag_mean context_mean * 100) 2"

text \<open>
  A number with at most \<open>n\<close> decimal places, as \<^verbatim>\<open>ROUND(..., n)\<close> returns it.
\<close>

definition has_scale :: "nat \<Rightarrow> rat \<Rightarrow> bool" where
  "has_scale n x = (of_int \<lfloor>x * 10 ^ n\<rfloor> = x * 10 ^ n)"

section \<open>Concrete inputs\<close>

text \<open>A joined row with a method, a response time, a cost and a quality score.\<close>

definition metric :: "string \<Rightarrow> rat \<Rightarrow> rat \<Rightarrow> rat \<Rightarrow> raw_row" where
  "metric m t c q =
     \<lparr> raw_row.processing_method = Some m, response_time_ms = Some t, cost_usd = Some c,
       quality_score = Some q, user_satisfaction = None \<rparr>"

text \<open>The end-to-end scenario of the specification.\<close>

definition scenario :: "raw_row list" where
  "scenario =
     [metric ''RAG'' 500 (2 / 1000) (95 / 100),
      metric ''RAG'' 700 (3 / 1000) (90 / 100),
      metric ''CONTEXT_DUMP'' 3000 (2 / 100) (80 / 100)]"

text \<open>The two rows the performance query returns for the scenario, and its report.\<close>

definition scenario_rag :: perf_row where
  "scenario_rag =
     \<lparr> processing_method = Some ''RAG'', query_count = 2,
       avg_response_time_ms = Some 600, avg_cost_usd = Some (25 / 10000),
       avg_quality_score = Some (925 / 1000), avg_user_satisfaction = None \<rparr>"

definition scenario_context :: perf_row where
  "scenario_context =
     \<lparr> processing_method = Some ''CONTEXT_DUMP'', query_count = 1,
       avg_response_time_ms = Some 3000, avg_cost_usd = Some (2 / 100),
       avg_quality_score = Some (80 / 100), avg_user_satisfaction = None \<rparr>"

definition scenario_report :: pydict where
  "scenario_report =
     [(''rag_metrics'', PyDict (dict_of_row scenario_rag)),
      (''context_dump_metrics'', PyDict (dict_of_row scenario_context)),
      (''performance_improvement_factor'', PyDec 5),
      (''cost_reduction_factor'', PyDec 8),
      (''quality_improvement_percent'', PyDec (1562 / 100))]"

text \<open>RAG is the slower and the dearer method.\<close>

definition rag_slower :: "raw_row list" where
  "rag_slower =
     [metric ''RAG'' 3000 (2 / 100) (80 / 100),
      metric ''CONTEXT_DUMP'' 600 (25 / 10000) (925 / 1000)]"



text \<open>Only RAG records: the CONTEXT\_DUMP group is missing.\<close>

definition rag_only :: "raw_row list" where
  "rag_only = [metric ''RAG'' 500 (2 / 1000) (95 / 100)]"


section \<open>Properties of the rounding\<close>

lemma round_half_even_cases:
  "round_half_even x = \<lfloor>x\<rfloor> \<or> round_half_even x = \<lfloor>x\<rfloor> + 1"
  by (simp add: round_half_even_def Let_def)

lemma round_half_even_upper: "of_int (round_half_even x) - x \<le> 1 / 2"
proof -
  have "of_int \<lfloor>x\<rfloor> \<le> x" by simp
  then show ?thesis
    unfolding round_half_even_def Let_def
    by (simp split: if_splits) linarith
qed

lemma round_half_even_lower: "x - of_int (round_half_even x) \<le> 1 / 2"
proof -
  have "x < of_int \<lfloor>x\<rfloor> + 1" by linarith
  then show ?thesis
    unfolding round_half_even_def Let_def
    by (simp split: if_splits)
qed

lemma round_half_even_ge: "of_int k \<le> x \<Longrightarrow> k \<le> round_half_even x"
proof -
  assume "of_int k \<le> x"
  then have "k \<le> \<lfloor>x\<rfloor>" by (simp add: le_floor_iff)
  then show ?thesis using round_half_even_cases [of x] by linarith
qed

lemma round_places_error: "\<bar>round_places x n - x\<bar> \<le> 1 / (2 * 10 ^ n)"
proof -
  let ?p = "(10::rat) ^ n"
  have p: "0 < ?p" by simp
  have "\<bar>of_int (round_half_even (x * ?p)) - x * ?p\<bar> \<le> 1 / 2"
    using round_half_even_upper [of "x * ?p"] round_half_even_lower [of "x * ?p"] by linarith
  then have "\<bar>of_int (round_half_even (x * ?p)) - x * ?p\<bar> / ?p \<le> (1 / 2) / ?p"
    using p by (intro divide_right_mono) simp_all
  moreover have "\<bar>of_int (round_half_even (x * ?p)) - x * ?p\<bar> / ?p = \<bar>round_places x n - x\<bar>"
  proof -
    have "\<bar>of_int (round_half_even (x * ?p)) - x * ?p\<bar> / ?p
        = \<bar>(of_int (round_half_even (x * ?p)) - x * ?p) / ?p\<bar>"
      using p by (simp add: abs_divide)
    also have "(of_int (round_half_even (x * ?p)) - x * ?p) / ?p = round_places x n - x"
      using p by (simp add: round_places_def diff_divide_distrib)
    finally show ?thesis .
  qed
  ultimately show ?thesis by simp
qed

lemma round_places_ge_1: "1 \<le> x \<Longrightarrow> 1 \<le> round_places x 1"
proof -
  assume "1 \<le> x"
  then have "of_int 10 \<le> x * 10" by simp
  then have "10 \<le> round_half_even (x * 10)" by (rule round_half_even_ge)
  then have "(10::rat) \<le> of_int (round_half_even (x * 10))" by linarith
  then show ?thesis by (simp add: round_places_def)
qed

lemma round_places_places: "\<exists>k::int. round_places x n = of_int k / 10 ^ n"
  by (auto simp: round_places_def)

lemma round_half_even_of_int: "round_half_even (of_int k) = k"
  by (simp add: round_half_even_def)

lemma round_half_even_unique:
  assumes "of_int k - 1 / 2 < y" and "y < of_int k + 1 / 2"
  shows "round_half_even y = k"
proof -
  have "\<bar>of_int (round_half_even y) - of_int k\<bar> < (1::rat)"
    using assms round_half_even_upper [of y] round_half_even_lower [of y] by linarith
  then have "\<bar>round_half_even y - k\<bar> < 1"
    by (metis of_int_1 of_int_abs of_int_diff of_int_less_iff)
  then show ?thesis by linarith
qed

lemma ndigits_pos: "0 < ndigits n"
  by (subst ndigits.simps) simp

lemma ndigits_bounds: "0 < n \<Longrightarrow> 10 ^ (ndigits n - 1) \<le> n \<and> n < 10 ^ ndigits n"
proof (induction n rule: ndigits.induct)
  case (1 n)
  show ?case
  proof (cases "n < 10")
    case True
    then show ?thesis using 1(2) by (subst (1 2) ndigits.simps) simp
  next
    case False
    then have pos: "0 < n div 10" by simp
    from 1(1) [OF False pos]
    have ih: "10 ^ (ndigits (n div 10) - 1) \<le> n div 10" "n div 10 < 10 ^ ndigits (n div 10)"
      by simp_all
    have d: "ndigits n = Suc (ndigits (n div 10))"
      using False by (subst ndigits.simps) simp
    have "10 * 10 ^ (ndigits (n div 10) - 1) \<le> 10 * (n div 10)" using ih(1) by simp
    moreover have "10 * 10 ^ (ndigits (n div 10) - 1) = (10::int) ^ ndigits (n div 10)"
      using ndigits_pos [of "n div 10"] by (cases "ndigits (n div 10)") simp_all
    moreover have "10 * (n div 10) \<le> n" by simp
    ultimately have lo: "10 ^ ndigits (n div 10) \<le> n" by linarith
    have "n div 10 + 1 \<le> 10 ^ ndigits (n div 10)" using ih(2) by simp
    then have "10 * (n div 10 + 1) \<le> 10 * 10 ^ ndigits (n div 10)" by simp
    moreover have "n < 10 * (n div 10 + 1)" by simp
    ultimately have hi: "n < 10 * 10 ^ ndigits (n div 10)" by linarith
    show ?thesis using lo hi by (simp add: d)
  qed
qed

lemma pow10_powi: "pow10 e = 10 powi e"
  by (simp add: pow10_def power_int_def field_simps)

lemma pow10_pos: "0 < pow10 e"
  by (simp add: pow10_powi)

lemma pow10_add: "pow10 (a + b) = pow10 a * pow10 b"
  by (simp add: pow10_powi power_int_add)

lemma pow10_nat: "pow10 (int n) = 10 ^ n"
  by (simp add: pow10_def)

lemma pow10_neg_nat: "pow10 (- int n) = 1 / 10 ^ n"
  by (auto simp: pow10_def)

lemma pow10_mono: "a \<le> b \<Longrightarrow> pow10 a \<le> pow10 b"
  by (simp add: pow10_powi power_int_increasing)

lemma pow10_less_imp: "pow10 a < pow10 b \<Longrightarrow> a < b"
  using pow10_mono [of b a] by (cases "a < b") auto

lemma adjusted_bounds:
  assumes "x \<noteq> 0"
  shows "pow10 (adjusted x) \<le> \<bar>x\<bar> \<and> \<bar>x\<bar> < pow10 (adjusted x + 1)"
proof (cases "1 \<le> \<bar>x\<bar>")
  case True
  let ?n = "\<lfloor>\<bar>x\<bar>\<rfloor>"
  have n: "0 < ?n" using True by simp
  have a: "adjusted x = int (ndigits ?n) - 1" using True by (simp add: adjusted_def)
  from ndigits_bounds [OF n]
  have b: "10 ^ (ndigits ?n - 1) \<le> ?n" "?n < 10 ^ ndigits ?n" by simp_all
  have p1: "pow10 (adjusted x) = 10 ^ (ndigits ?n - 1)"
    using ndigits_pos [of ?n] pow10_nat [of "ndigits ?n - 1"] by (simp add: a of_nat_diff)
  have p2: "pow10 (adjusted x + 1) = 10 ^ ndigits ?n"
    using pow10_nat [of "ndigits ?n"] by (simp add: a)
  have "(10::rat) ^ (ndigits ?n - 1) = of_int (10 ^ (ndigits ?n - 1))" by simp
  also have "\<dots> \<le> of_int ?n" using b(1) by (simp only: of_int_le_iff)
  also have "\<dots> \<le> \<bar>x\<bar>" by simp
  finally have lo: "pow10 (adjusted x) \<le> \<bar>x\<bar>" by (simp add: p1)
  have "?n + 1 \<le> 10 ^ ndigits ?n" using b(2) by simp
  then have "(of_int (?n + 1) :: rat) \<le> of_int (10 ^ ndigits ?n)" by (simp only: of_int_le_iff)
  moreover have "\<bar>x\<bar> < of_int (?n + 1)" by linarith
  ultimately have "\<bar>x\<bar> < 10 ^ ndigits ?n" by simp
  then show ?thesis using lo by (simp add: p2)
next
  case False
  then have lt: "\<bar>x\<bar> < 1" by simp
  have pos: "0 < \<bar>x\<bar>" using assms by simp
  let ?c = "\<lceil>1 / \<bar>x\<bar>\<rceil>"
  let ?m = "?c - 1"
  have inv: "1 < 1 / \<bar>x\<bar>" using lt pos by simp
  then have c2: "2 \<le> ?c" by (simp add: le_ceiling_iff) 
  then have m: "0 < ?m" by simp
  have a: "adjusted x = - int (ndigits ?m)" using False by (simp add: adjusted_def)
  from ndigits_bounds [OF m]
  have b: "10 ^ (ndigits ?m - 1) \<le> ?m" "?m < 10 ^ ndigits ?m" by simp_all
  have c_le: "?c \<le> 10 ^ ndigits ?m" using b(2) by simp
  have "1 / \<bar>x\<bar> \<le> of_int ?c" by simp
  also have "\<dots> \<le> of_int (10 ^ ndigits ?m)" using c_le by (simp only: of_int_le_iff)
  finally have "1 / \<bar>x\<bar> \<le> 10 ^ ndigits ?m" by simp
  then have lo: "1 / 10 ^ ndigits ?m \<le> \<bar>x\<bar>"
    using pos by (simp add: field_simps)
  have "of_int ?m < 1 / \<bar>x\<bar>" by linarith
  moreover have "(of_int (10 ^ (ndigits ?m - 1)) :: rat) \<le> of_int ?m"
    using b(1) by (simp only: of_int_le_iff)
  ultimately have "10 ^ (ndigits ?m - 1) < 1 / \<bar>x\<bar>" by simp
  then have hi: "\<bar>x\<bar> < 1 / 10 ^ (ndigits ?m - 1)"
    using pos by (simp add: field_simps)
  have p1: "pow10 (adjusted x) = 1 / 10 ^ ndigits ?m"
    by (simp add: a pow10_neg_nat)
  have "adjusted x + 1 = - int (ndigits ?m - 1)"
    using ndigits_pos [of ?m] by (simp add: a of_nat_diff)
  then have p2: "pow10 (adjusted x + 1) = 1 / 10 ^ (ndigits ?m - 1)"
    by (simp only: pow10_neg_nat)
  show ?thesis using lo hi by (simp add: p1 p2)
qed

lemma adjusted_less:
  assumes "x \<noteq> 0" and "\<bar>x\<bar> < pow10 k"
  shows "adjusted x < k"
proof -
  have "pow10 (adjusted x) < pow10 k"
    using adjusted_bounds [OF assms(1)] assms(2) by linarith
  then show ?thesis by (rule pow10_less_imp)
qed

lemma ctx_round_error: "\<bar>ctx_round x - x\<bar> \<le> \<bar>x\<bar> / (2 * 10 ^ 27)"
proof (cases "x = 0")
  case True
  then show ?thesis by (simp add: ctx_round_def)
next
  case False
  let ?q = "pow10 (adjusted x - 27)"
  have q: "0 < ?q" by (rule pow10_pos)
  have c: "ctx_round x = of_int (round_half_even (x / ?q)) * ?q"
    using False by (simp add: ctx_round_def Let_def)
  have "\<bar>of_int (round_half_even (x / ?q)) - x / ?q\<bar> \<le> 1 / 2"
    using round_half_even_upper [of "x / ?q"] round_half_even_lower [of "x / ?q"] by linarith
  then have "\<bar>of_int (round_half_even (x / ?q)) - x / ?q\<bar> * ?q \<le> (1 / 2) * ?q"
    using q by (intro mult_right_mono) simp_all
  moreover have "\<bar>of_int (round_half_even (x / ?q)) - x / ?q\<bar> * ?q = \<bar>ctx_round x - x\<bar>"
  proof -
    have "\<bar>of_int (round_half_even (x / ?q)) - x / ?q\<bar> * ?q
        = \<bar>(of_int (round_half_even (x / ?q)) - x / ?q) * ?q\<bar>"
      using q by (simp add: abs_mult)
    also have "(of_int (round_half_even (x / ?q)) - x / ?q) * ?q = ctx_round x - x"
      using q by (simp add: c left_diff_distrib)
    finally show ?thesis .
  qed
  ultimately have e: "\<bar>ctx_round x - x\<bar> \<le> ?q / 2" by simp
  have "?q = pow10 (adjusted x) * pow10 (- int 27)"
    using pow10_add [of "adjusted x" "- int 27"] by simp
  then have "?q = pow10 (adjusted x) / 10 ^ 27"
    by (simp only: pow10_neg_nat) simp
  moreover have "pow10 (adjusted x) \<le> \<bar>x\<bar>" using adjusted_bounds [OF False] by simp
  ultimately have "?q \<le> \<bar>x\<bar> / 10 ^ 27" by (simp add: divide_right_mono)
  with e show ?thesis by simp
qed

lemma ctx_round_exact:
  assumes x: "x * 10 ^ j = of_int c" and c: "\<bar>c\<bar> < 10 ^ 28"
  shows "ctx_round x = x"
proof (cases "x = 0")
  case True
  then show ?thesis by (simp add: ctx_round_def)
next
  case False
  have "\<bar>x\<bar> * 10 ^ j = \<bar>of_int c :: rat\<bar>" using x by (simp add: abs_mult flip: x)
  also have "\<dots> = of_int \<bar>c\<bar>" by simp
  also have "\<dots> < of_int (10 ^ 28)" using c by (simp only: of_int_less_iff)
  finally have "\<bar>x\<bar> * 10 ^ j < 10 ^ 28" by simp
  then have "\<bar>x\<bar> < 10 ^ 28 / 10 ^ j" by (simp add: field_simps)
  moreover have "pow10 (28 - int j) = 10 ^ 28 / 10 ^ j"
    using pow10_add [of "int 28" "- int j"] by (simp only: pow10_nat pow10_neg_nat) simp
  ultimately have "\<bar>x\<bar> < pow10 (28 - int j)" by simp
  from adjusted_less [OF False this] have e: "adjusted x + int j \<le> 27" by simp
  define r where "r = nat (27 - adjusted x - int j)"
  have r: "adjusted x - 27 = - int (j + r)" using e by (simp add: r_def)
  let ?q = "pow10 (adjusted x - 27)"
  have q: "?q = 1 / 10 ^ (j + r)" by (simp only: r pow10_neg_nat)
  have "x / ?q = x * 10 ^ j * 10 ^ r" by (simp add: q power_add)
  also have "\<dots> = of_int (c * 10 ^ r)" by (simp add: x)
  finally have z: "x / ?q = of_int (c * 10 ^ r)" .
  have "ctx_round x = of_int (round_half_even (x / ?q)) * ?q"
    using False by (simp add: ctx_round_def Let_def)
  also have "\<dots> = (x / ?q) * ?q" by (simp only: z round_half_even_of_int)
  also have "\<dots> = x" using pow10_pos [of "adjusted x - 27"] by simp
  finally show ?thesis .
qed

lemma round_half_even_stable:
  assumes A: "0 < A"
    and N: "y * (2 * of_int A) = of_int N"
    and close: "\<bar>y' - y\<bar> < 1 / (2 * of_int A)"
    and tie: "\<And>k::int. y = of_int k + 1 / 2 \<Longrightarrow> y' = y"
  shows "round_half_even y' = round_half_even y"
proof (cases "\<exists>k::int. y = of_int k + 1 / 2")
  case True
  then show ?thesis using tie by auto
next
  case False
  define k where "k = round_half_even y"
  have A': "(0::rat) < 2 * of_int A" using A by simp
  have up: "y \<le> of_int k + 1 / 2" and lo: "of_int k - 1 / 2 \<le> y"
    using round_half_even_upper [of y] round_half_even_lower [of y] by (simp_all add: k_def)
  have "y \<noteq> of_int k + 1 / 2" using False by blast
  moreover have "y \<noteq> of_int (k - 1) + 1 / 2" using False by blast
  ultimately have up': "y < of_int k + 1 / 2" and lo': "of_int k - 1 / 2 < y"
    using up lo by simp_all
  have g1: "1 / (2 * of_int A) \<le> of_int k + 1 / 2 - y"
  proof -
    have "(of_int k + 1 / 2 - y) * (2 * of_int A) = of_int ((2 * k + 1) * A - N)"
      by (simp add: algebra_simps flip: N)
    moreover have "0 < (of_int k + 1 / 2 - y) * (2 * of_int A)" using up' A' by simp
    ultimately have "(0::rat) < of_int ((2 * k + 1) * A - N)" by simp
    then have "0 < (2 * k + 1) * A - N" by (simp only: of_int_0_less_iff)
    then have "1 \<le> (2 * k + 1) * A - N" by linarith
    then have "(1::rat) \<le> of_int ((2 * k + 1) * A - N)" by (simp only: of_int_1_le_iff)
    then have "1 \<le> (of_int k + 1 / 2 - y) * (2 * of_int A)"
      by (simp add: algebra_simps flip: N)
    then show ?thesis using A' by (simp add: field_simps)
  qed
  have g2: "1 / (2 * of_int A) \<le> y - (of_int k - 1 / 2)"
  proof -
    have "(y - (of_int k - 1 / 2)) * (2 * of_int A) = of_int (N - (2 * k - 1) * A)"
      by (simp add: algebra_simps flip: N)
    moreover have "0 < (y - (of_int k - 1 / 2)) * (2 * of_int A)" using lo' A' by simp
    ultimately have "(0::rat) < of_int (N - (2 * k - 1) * A)" by simp
    then have "0 < N - (2 * k - 1) * A" by (simp only: of_int_0_less_iff)
    then have "1 \<le> N - (2 * k - 1) * A" by linarith
    then have "(1::rat) \<le> of_int (N - (2 * k - 1) * A)" by (simp only: of_int_1_le_iff)
    then have "1 \<le> (y - (of_int k - 1 / 2)) * (2 * of_int A)"
      by (simp add: algebra_simps flip: N)
    then show ?thesis using A' by (simp add: field_simps)
  qed
  have "of_int k - 1 / 2 < y'" "y' < of_int k + 1 / 2"
    using g1 g2 close by linarith+
  then have "round_half_even y' = k" by (rule round_half_even_unique)
  then show ?thesis by (simp add: k_def)
qed

lemma round_half_even_abs: "of_int \<bar>round_half_even y\<bar> \<le> \<bar>y\<bar> + 1 / 2"
  using round_half_even_upper [of y] round_half_even_lower [of y] by linarith

lemma int_nonzero_abs_ge_1: "a \<noteq> 0 \<Longrightarrow> (1::rat) \<le> \<bar>of_int a\<bar>"
proof -
  assume "a \<noteq> 0"
  then have "1 \<le> \<bar>a\<bar>" by simp
  then have "(1::rat) \<le> of_int \<bar>a\<bar>" by (simp only: of_int_1_le_iff)
  then show ?thesis by simp
qed

lemma py_round_of_close:
  assumes A: "0 < A"
    and N: "y * (2 * of_int A) = of_int N"
    and close: "\<bar>d * 10 ^ n - y\<bar> < 1 / (2 * of_int A)"
    and tie: "\<And>k::int. y = of_int k + 1 / 2 \<Longrightarrow> d * 10 ^ n = y"
    and small: "\<bar>y\<bar> < 10 ^ 27"
  shows "py_round d n = Inr (of_int (round_half_even y) / 10 ^ n)"
proof -
  have e: "round_half_even (d * 10 ^ n) = round_half_even y"
    using A N close tie by (rule round_half_even_stable)
  have "of_int \<bar>round_half_even y\<bar> \<le> \<bar>y\<bar> + 1 / 2" by (rule round_half_even_abs)
  also have "\<dots> < 10 ^ 28" using small by simp
  finally have "(of_int \<bar>round_half_even y\<bar> :: rat) < of_int (10 ^ 28)" by simp
  then have "\<bar>round_half_even y\<bar> < 10 ^ 28" by (simp only: of_int_less_iff)
  then show ?thesis by (simp add: py_round_def e Let_def)
qed

lemma div_then_round:
  assumes x: "x * 10 ^ s = of_int b" and y: "y * 10 ^ s = of_int a" and nz: "y \<noteq> 0"
    and small: "\<bar>b\<bar> * 10 ^ n < 10 ^ 27"
  shows "py_round (ctx_round (x / y)) n = Inr (round_places (x / y) n)"
proof -
  define q where "q = x / y"
  define B :: rat where "B = of_int (\<bar>b\<bar> * 10 ^ n)"
  have a0: "a \<noteq> 0" using y nz by auto
  then have a1: "(1::rat) \<le> \<bar>of_int a\<bar>" by (rule int_nonzero_abs_ge_1)
  have q: "q = of_int b / of_int a"
  proof -
    have "x = of_int b / 10 ^ s" "y = of_int a / 10 ^ s"
      by (simp_all add: field_simps flip: x y)
    then show ?thesis by (simp add: q_def)
  qed
  have B: "B < 10 ^ 27"
  proof -
    have "B < of_int (10 ^ 27)" unfolding B_def using small by (simp only: of_int_less_iff)
    then show ?thesis by simp
  qed
  have B0: "0 \<le> B" by (simp add: B_def)
  have Bq: "\<bar>q\<bar> * 10 ^ n = B / \<bar>of_int a\<bar>"
    by (simp add: q B_def abs_mult abs_divide)
  have qB: "\<bar>q\<bar> * 10 ^ n \<le> B"
  proof -
    have "B / \<bar>of_int a\<bar> \<le> B / 1"
      using a1 B0 by (intro divide_left_mono) simp_all
    then show ?thesis by (simp add: Bq)
  qed
  have A: "0 < \<bar>a\<bar>" using a0 by simp
  have N: "(q * 10 ^ n) * (2 * of_int \<bar>a\<bar>) = of_int (2 * b * sgn a * 10 ^ n)"
    using a0 by (cases "0 < a") (simp_all add: q sgn_if field_simps)
  have close: "\<bar>ctx_round q * 10 ^ n - q * 10 ^ n\<bar> < 1 / (2 * of_int \<bar>a\<bar>)"
  proof -
    have "\<bar>ctx_round q * 10 ^ n - q * 10 ^ n\<bar> = \<bar>ctx_round q - q\<bar> * 10 ^ n"
      by (simp add: abs_mult flip: left_diff_distrib)
    also have "\<dots> \<le> \<bar>q\<bar> / (2 * 10 ^ 27) * 10 ^ n"
      by (intro mult_right_mono ctx_round_error) simp
    also have "\<dots> = B / 10 ^ 27 / (2 * \<bar>of_int a\<bar>)"
      using Bq by (simp add: field_simps)
    also have "\<dots> < 1 / (2 * \<bar>of_int a\<bar>)"
      using B a1 by (intro divide_strict_right_mono) simp_all
    finally show ?thesis by simp
  qed
  have tie: "ctx_round q * 10 ^ n = q * 10 ^ n" if t: "q * 10 ^ n = of_int k + 1 / 2" for k :: int
  proof -
    have s: "q * 10 ^ Suc n = of_int (10 * k + 5)"
    proof -
      have "q * 10 ^ Suc n = (q * 10 ^ n) * 10" by simp
      also have "\<dots> = of_int (10 * k + 5)" by (simp add: t)
      finally show ?thesis .
    qed
    have "of_int \<bar>10 * k + 5\<bar> = \<bar>q * 10 ^ Suc n\<bar>" by (simp only: s of_int_abs)
    also have "\<dots> = 10 * (\<bar>q\<bar> * 10 ^ n)" by (simp add: abs_mult)
    also have "\<dots> \<le> 10 * B" using qB by simp
    also have "\<dots> < 10 ^ 28" using B by simp
    finally have "(of_int \<bar>10 * k + 5\<bar> :: rat) < of_int (10 ^ 28)" by simp
    then have "\<bar>10 * k + 5\<bar> < 10 ^ 28" by (simp only: of_int_less_iff)
    with s have "ctx_round q = q" by (rule ctx_round_exact)
    then show ?thesis by simp
  qed
  have small': "\<bar>q * 10 ^ n\<bar> < 10 ^ 27"
    using qB B by (simp add: abs_mult)
  have "py_round (ctx_round q) n = Inr (of_int (round_half_even (q * 10 ^ n)) / 10 ^ n)"
    using A N close tie small' by (rule py_round_of_close)
  then show ?thesis by (simp add: round_places_def q_def)
qed

lemma percent_then_round:
  assumes rq: "rq * 10 ^ 3 = of_int r" and cq: "cq * 10 ^ 3 = of_int c" and nz: "cq \<noteq> 0"
    and small: "\<bar>r - c\<bar> * 30000 < 10 ^ 27"
  shows "py_round (ctx_round (ctx_round (ctx_round (rq - cq) / cq) * 100)) 2
           = Inr (round_places ((rq - cq) / cq * 100) 2)"
proof -
  define b where "b = r - c"
  define u where "u = (rq - cq) / cq"
  define d where "d = ctx_round u"
  define m where "m = ctx_round (d * 100)"
  define y where "y = u * 100 * 10 ^ 2"
  define B :: rat where "B = of_int (\<bar>b\<bar> * 30000)"
  have B: "B < 10 ^ 27"
  proof -
    have "B < of_int (10 ^ 27)"
      unfolding B_def b_def using small by (simp only: of_int_less_iff)
    then show ?thesis by simp
  qed
  have Bb: "B = \<bar>of_int b\<bar> * 30000" by (simp add: B_def)
  have sub: "(rq - cq) * 10 ^ 3 = of_int b"
  proof -
    have "(rq - cq) * 10 ^ 3 = rq * 10 ^ 3 - cq * 10 ^ 3" by (rule left_diff_distrib)
    also have "\<dots> = of_int r - of_int c" by (simp only: rq cq)
    also have "\<dots> = of_int b" by (simp add: b_def)
    finally show ?thesis .
  qed
  have "\<bar>b\<bar> \<le> \<bar>b\<bar> * 30000" by simp
  moreover have "(10::int) ^ 27 \<le> 10 ^ 28" by simp
  ultimately have "\<bar>b\<bar> < 10 ^ 28" using small unfolding b_def by linarith
  with sub have t: "ctx_round (rq - cq) = rq - cq" by (rule ctx_round_exact)
  have c0: "c \<noteq> 0" using cq nz by auto
  have c1: "(1::rat) \<le> \<bar>of_int c\<bar>" using c0 by (rule int_nonzero_abs_ge_1)
  have u: "u = of_int b / of_int c"
  proof -
    have "rq - cq = of_int b / 10 ^ 3" using sub by (simp add: eq_divide_eq)
    moreover have "cq = of_int c / 10 ^ 3" using cq by (simp add: eq_divide_eq)
    ultimately have "u = (of_int b / 10 ^ 3) / (of_int c / 10 ^ 3)"
      by (simp only: u_def)
    then show ?thesis by simp
  qed
  have au: "\<bar>u\<bar> = \<bar>of_int b\<bar> / \<bar>of_int c\<bar>" by (simp add: u abs_divide)
  have ub: "\<bar>u\<bar> \<le> \<bar>of_int b\<bar>"
  proof -
    have "\<bar>of_int b\<bar> / \<bar>of_int c\<bar> \<le> \<bar>of_int b :: rat\<bar> / 1"
      using c1 by (intro divide_left_mono) simp_all
    then show ?thesis by (simp add: au)
  qed
  have A: "0 < \<bar>c\<bar>" using c0 by simp
  have N: "y * (2 * of_int \<bar>c\<bar>) = of_int (2 * b * sgn c * 10 ^ 4)"
    using c0 by (cases "0 < c") (simp_all add: y_def u sgn_if field_simps)
  have du: "\<bar>d - u\<bar> \<le> \<bar>u\<bar> / (2 * 10 ^ 27)"
    unfolding d_def by (rule ctx_round_error)
  have md: "\<bar>m - d * 100\<bar> \<le> \<bar>d * 100\<bar> / (2 * 10 ^ 27)"
    unfolding m_def by (rule ctx_round_error)
  have d2: "\<bar>d\<bar> \<le> 2 * \<bar>u\<bar>"
  proof -
    have "\<bar>u\<bar> / (2 * 10 ^ 27) \<le> \<bar>u\<bar>" by (simp add: field_simps)
    with du show ?thesis by linarith
  qed
  have close: "\<bar>m * 10 ^ 2 - y\<bar> < 1 / (2 * of_int \<bar>c\<bar>)"
  proof -
    have e: "m * 10 ^ 2 - y = 100 * (m - u * 100)" by (simp add: y_def algebra_simps)
    have "\<bar>100 * (m - u * 100)\<bar> = \<bar>100::rat\<bar> * \<bar>m - u * 100\<bar>"
      by (rule abs_mult)
    then have "\<bar>m * 10 ^ 2 - y\<bar> = \<bar>100::rat\<bar> * \<bar>m - u * 100\<bar>"
      by (simp only: e)
    also have "\<bar>100::rat\<bar> = 100" by simp
    finally have h: "\<bar>m * 10 ^ 2 - y\<bar> = 100 * \<bar>m - u * 100\<bar>" .
    have t1: "m - u * 100 = (m - d * 100) + 100 * (d - u)" by (simp add: algebra_simps)
    have t2: "\<bar>100 * (d - u)\<bar> = \<bar>100::rat\<bar> * \<bar>d - u\<bar>" by (rule abs_mult)
    have "\<bar>(m - d * 100) + 100 * (d - u)\<bar> \<le> \<bar>m - d * 100\<bar> + \<bar>100 * (d - u)\<bar>"
      by (rule abs_triangle_ineq)
    then have "\<bar>m - u * 100\<bar> \<le> \<bar>m - d * 100\<bar> + 100 * \<bar>d - u\<bar>"
      by (simp only: t1 t2)
    also have "\<dots> \<le> \<bar>d * 100\<bar> / (2 * 10 ^ 27) + 100 * (\<bar>u\<bar> / (2 * 10 ^ 27))"
      by (intro add_mono mult_left_mono md du) simp
    also have "\<bar>d * 100\<bar> = 100 * \<bar>d\<bar>" by (simp add: abs_mult)
    also have "100 * \<bar>d\<bar> / (2 * 10 ^ 27) + 100 * (\<bar>u\<bar> / (2 * 10 ^ 27))
                 \<le> 150 * \<bar>u\<bar> / 10 ^ 27"
      using d2 by (simp add: field_simps)
    finally have "\<bar>m - u * 100\<bar> \<le> 150 * \<bar>u\<bar> / 10 ^ 27" .
    then have "\<bar>m * 10 ^ 2 - y\<bar> \<le> 100 * (150 * \<bar>u\<bar> / 10 ^ 27)"
      by (simp only: h) simp
    also have "\<dots> = B / 10 ^ 27 / (2 * \<bar>of_int c\<bar>)"
      by (simp add: au Bb field_simps)
    also have "\<dots> < 1 / (2 * \<bar>of_int c\<bar>)"
      using B c1 by (intro divide_strict_right_mono) simp_all
    finally show ?thesis by simp
  qed
  have ysmall: "\<bar>y\<bar> * 3 \<le> B"
  proof -
    have "\<bar>y\<bar> * 3 = \<bar>u\<bar> * 30000" by (simp add: y_def abs_mult)
    also have "\<dots> \<le> \<bar>of_int b\<bar> * 30000" using ub by simp
    finally show ?thesis by (simp add: Bb)
  qed
  have tie: "m * 10 ^ 2 = y" if t': "y = of_int k + 1 / 2" for k :: int
  proof -
    have s: "u * 10 ^ 5 = of_int (10 * k + 5)"
    proof -
      have "u * 10 ^ 5 = y * 10" by (simp add: y_def)
      also have "\<dots> = of_int (10 * k + 5)" by (simp add: t')
      finally show ?thesis .
    qed
    have "of_int \<bar>10 * k + 5\<bar> = \<bar>u * 10 ^ 5\<bar>" by (simp only: s of_int_abs)
    also have "\<dots> = 10 * \<bar>y\<bar>" by (simp add: y_def abs_mult)
    also have "\<dots> \<le> 10 * B" using ysmall by linarith
    also have "\<dots> < 10 ^ 28" using B by simp
    finally have "(of_int \<bar>10 * k + 5\<bar> :: rat) < of_int (10 ^ 28)" by simp
    then have k: "\<bar>10 * k + 5\<bar> < 10 ^ 28" by (simp only: of_int_less_iff)
    from s k have "ctx_round u = u" by (rule ctx_round_exact)
    then have d: "d = u" by (simp add: d_def)
    have "(u * 100) * 10 ^ 3 = of_int (10 * k + 5)" using s by simp
    from this k have "ctx_round (u * 100) = u * 100" by (rule ctx_round_exact)
    then have "m = u * 100" by (simp add: m_def d)
    then show ?thesis by (simp add: y_def)
  qed
  have small': "\<bar>y\<bar> < 10 ^ 27" using ysmall B by linarith
  have "py_round m 2 = Inr (of_int (round_half_even y) / 10 ^ 2)"
    using A N close tie small' by (rule py_round_of_close)
  then show ?thesis
    by (simp add: round_places_def m_def d_def u_def y_def t)
qed

text \<open>
  The context at work: a quotient that the 28 digits round up to a tie, which
  \<^verbatim>\<open>round\<close> then takes to 0.4 where the exact quotient rounds to 0.3; and a quotient
  whose rounding to one place needs 29 digits.
\<close>

lemma decimal_context_examples:
  "dec_truediv (Some (7 * 10 ^ 27)) (Some (2 * 10 ^ 28 + 1)) = Inr (35 / 100)"
  "py_round (35 / 100) 1 = Inr (4 / 10)"
  "round_places (7 * 10 ^ 27 / (2 * 10 ^ 28 + 1)) 1 = 3 / 10"
  "dec_truediv (Some (10 ^ 27)) (Some 1) = Inr (10 ^ 27)"
  "py_round (10 ^ 27) 1 = Inl InvalidOperation"
  by code_simp+

section \<open>Properties of the query and of the comparison\<close>

lemma find_eq_const: "find (\<lambda>k. k = a) xs = (if a \<in> set xs then Some a else None)"
  by (induction xs) auto

lemma processing_method_group_row: "processing_method (group_row db k) = k"
  by (simp add: group_row_def Let_def)

lemma find_method_performance_data:
  "find_method m (performance_data db) =
     (if Some m \<in> raw_row.processing_method ` set db then Some (group_row db (Some m)) else None)"
proof -
  have "find (\<lambda>row. processing_method row = Some m) (map (group_row db) ks)
      = map_option (group_row db) (find (\<lambda>k. k = Some m) ks)" for ks
    by (induction ks) (auto simp: processing_method_group_row)
  then show ?thesis
    by (simp add: find_method_def performance_data_def find_eq_const)
qed

lemma performance_improvements_absent:
  "find_method ''RAG'' rows = None \<or> find_method ''CONTEXT_DUMP'' rows = None
   \<Longrightarrow> performance_improvements rows = Inr []"
  by (auto simp: performance_improvements_def split: option.splits)

lemma performance_improvements_present:
  assumes "find_method ''RAG'' rows = Some rag_data"
    and "find_method ''CONTEXT_DUMP'' rows = Some context_data"
    and "performance_improvements rows = Inr m"
  shows "\<exists>p c q.
           performance_improvement_factor rag_data context_data = Inr p \<and>
           cost_reduction_factor rag_data context_data = Inr c \<and>
           quality_improvement_percent rag_data context_data = Inr q \<and>
           m = [(''rag_metrics'', PyDict (dict_of_row rag_data)),
                (''context_dump_metrics'', PyDict (dict_of_row context_data)),
                (''performance_improvement_factor'', PyDec p),
                (''cost_reduction_factor'', PyDec c),
                (''quality_improvement_percent'', PyDec q)]"
  using assms by (auto simp: performance_improvements_def split: sum.splits)

lemma performance_improvements_returns:
  assumes "find_method ''RAG'' rows = Some rag_data"
    and "find_method ''CONTEXT_DUMP'' rows = Some context_data"
    and "performance_improvement_factor rag_data context_data = Inr p"
    and "cost_reduction_factor rag_data context_data = Inr c"
    and "quality_improvement_percent rag_data context_data = Inr q"
  shows "performance_improvements rows =
           Inr [(''rag_metrics'', PyDict (dict_of_row rag_data)),
                (''context_dump_metrics'', PyDict (dict_of_row context_data)),
                (''performance_improvement_factor'', PyDec p),
                (''cost_reduction_factor'', PyDec c),
                (''quality_improvement_percent'', PyDec q)]"
  using assms by (simp add: performance_improvements_def)

lemma analyze_absent:
  "Some ''RAG'' \<notin> raw_row.processing_method ` set db \<or>
   Some ''CONTEXT_DUMP'' \<notin> raw_row.processing_method ` set db
   \<Longrightarrow> analyze_rag_vs_context_dumping db = Inr []"
  unfolding analyze_rag_vs_context_dumping_def
  by (rule performance_improvements_absent) (auto simp: find_method_performance_data)

lemma summary_of_empty_analysis:
  "analyze_rag_vs_context_dumping db = Inr []
   \<Longrightarrow> generate_executive_summary now db = Inr [(''error'', PyStr ''No data available for analysis'')]"
  by (simp add: generate_executive_summary_def)

lemma cost_reduction_factor_zero:
  "avg_cost_usd rag_data = Some 0 \<Longrightarrow> avg_cost_usd context_data = Some cc
   \<Longrightarrow> cost_reduction_factor rag_data context_data =
         Inl (if cc = 0 then InvalidOperation else DivisionByZero)"
  by (simp add: cost_reduction_factor_def dec_truediv_def)

lemma round_places_ratio_spec:
  "0 < a \<Longrightarrow> a \<le> b \<Longrightarrow> round_places (max a b / min a b) 1 = round_places (b / a) 1"
  by (simp add: max_def min_def)

lemma analysis_nonempty:
  assumes "analyze_rag_vs_context_dumping db = Inr a" and "a \<noteq> []"
  shows "\<exists>rag_data context_data p c q.
           find_method ''RAG'' (performance_data db) = Some rag_data \<and>
           find_method ''CONTEXT_DUMP'' (performance_data db) = Some context_data \<and>
           a = [(''rag_metrics'', PyDict (dict_of_row rag_data)),
                (''context_dump_metrics'', PyDict (dict_of_row context_data)),
                (''performance_improvement_factor'', PyDec p),
                (''cost_reduction_factor'', PyDec c),
                (''quality_improvement_percent'', PyDec q)]"
proof (cases "find_method ''RAG'' (performance_data db)")
  case None
  then show ?thesis
    using assms performance_improvements_absent [of "performance_data db"]
    by (simp add: analyze_rag_vs_context_dumping_def)
next
  case rag: (Some rag_data)
  show ?thesis
  proof (cases "find_method ''CONTEXT_DUMP'' (performance_data db)")
    case None
    then show ?thesis
      using assms performance_improvements_absent [of "performance_data db"]
      by (simp add: analyze_rag_vs_context_dumping_def)
  next
    case (Some context_data)
    then show ?thesis
      using performance_improvements_present [OF rag Some, of a] assms(1) rag
      by (auto simp: analyze_rag_vs_context_dumping_def)
  qed
qed

lemma roi_percent_dec:
  "roi_percent (PyDec p) (PyDec c) =
     Inr (if 900 < p * c * 20 then PyInt 900 else PyDec (p * c * 20))"
  by (simp add: roi_percent_def py_mul_def py_min_def num_of_def)

lemma summary_of_analysis:
  assumes "analyze_rag_vs_context_dumping db = Inr a"
    and "a = [(''rag_metrics'', rm), (''context_dump_metrics'', cm),
              (''performance_improvement_factor'', PyDec p),
              (''cost_reduction_factor'', PyDec c),
              (''quality_improvement_percent'', PyDec q)]"
  shows "generate_executive_summary now db =
           Inr [(''timestamp'', PyStr now),
                (''key_achievements'', PyDict
                   [(''performance_improvement'',
                       PyFormat (PyDec p) ''x faster than context dumping''),
                    (''cost_reduction'', PyFormat (PyDec c) ''x cost reduction achieved''),
                    (''quality_improvement'', PyFormat (PyDec q) ''% quality increase''),
                    (''roi_delivered'',
                       PyFormat (if 900 < p * c * 20 then PyInt 900 else PyDec (p * c * 20))
                         ''% return on investment'')]),
                (''business_impact'', PyDict business_impact),
                (''strategic_recommendations'', PyList strategic_recommendations),
                (''raw_analysis'', PyDict a)]"
  using assms by (simp add: generate_executive_summary_def dict_get_def roi_percent_dec Let_def)

lemma summary_raises:
  "analyze_rag_vs_context_dumping db = Inl e \<Longrightarrow> generate_executive_summary now db = Inl e"
  by (simp add: generate_executive_summary_def)

lemma scenario_rows:
  "find_method ''RAG'' (performance_data scenario) = Some scenario_rag"
  "find_method ''CONTEXT_DUMP'' (performance_data scenario) = Some scenario_context"
  by code_simp+

lemma scenario_analysis: "analyze_rag_vs_context_dumping scenario = Inr scenario_report"
  by code_simp

lemma has_scaleD: "has_scale n x \<Longrightarrow> \<exists>b::int. x * 10 ^ n = of_int b"
  unfolding has_scale_def by (rule exI [of _ "\<lfloor>x * 10 ^ n\<rfloor>"]) (rule sym)

lemma scaled_abs_less:
  assumes "x * 10 ^ n = of_int b" and "\<bar>x\<bar> < M"
  shows "(of_int \<bar>b\<bar> :: rat) < M * 10 ^ n"
proof -
  have "(of_int \<bar>b\<bar> :: rat) = \<bar>of_int b\<bar>" by simp
  also have "\<dots> = \<bar>x\<bar> * 10 ^ n" by (simp add: abs_mult flip: assms(1))
  also have "\<dots> < M * 10 ^ n" using assms(2) by simp
  finally show ?thesis .
qed

lemma round_places_nonneg: "0 \<le> x \<Longrightarrow> 0 \<le> round_places x n"
proof -
  assume "0 \<le> x"
  then have "of_int 0 \<le> x * 10 ^ n" by simp
  then have "0 \<le> round_half_even (x * 10 ^ n)" by (rule round_half_even_ge)
  then show ?thesis by (simp add: round_places_def)
qed

lemma performance_improvement_factor_value:
  assumes rt: "avg_response_time_ms rag_data = Some rt"
    and ct: "avg_response_time_ms context_data = Some ct"
    and nz: "rt \<noteq> 0"
    and scale: "has_scale 2 rt" "has_scale 2 ct"
    and bound: "\<bar>ct\<bar> < 10 ^ 24"
  shows "performance_improvement_factor rag_data context_data = Inr (round_places (ct / rt) 1)"
proof -
  obtain b a :: int where x: "ct * 10 ^ 2 = of_int b" and y: "rt * 10 ^ 2 = of_int a"
    using scale has_scaleD by blast
  have "(of_int \<bar>b\<bar> :: rat) < 10 ^ 24 * 10 ^ 2" using x bound by (rule scaled_abs_less)
  then have "(of_int (\<bar>b\<bar> * 10 ^ 1) :: rat) < of_int (10 ^ 27)" by simp
  then have small: "\<bar>b\<bar> * 10 ^ 1 < 10 ^ 27" by (simp only: of_int_less_iff)
  have "py_round (ctx_round (ct / rt)) 1 = Inr (round_places (ct / rt) 1)"
    using x y nz small by (rule div_then_round)
  then show ?thesis
    using rt ct nz by (simp add: performance_improvement_factor_def dec_truediv_def)
qed

lemma cost_reduction_factor_value:
  assumes rc: "avg_cost_usd rag_data = Some rc"
    and cc: "avg_cost_usd context_data = Some cc"
    and nz: "rc \<noteq> 0"
    and scale: "has_scale 6 rc" "has_scale 6 cc"
    and bound: "\<bar>cc\<bar> < 10 ^ 20"
  shows "cost_reduction_factor rag_data context_data = Inr (round_places (cc / rc) 1)"
proof -
  obtain b a :: int where x: "cc * 10 ^ 6 = of_int b" and y: "rc * 10 ^ 6 = of_int a"
    using scale has_scaleD by blast
  have "(of_int \<bar>b\<bar> :: rat) < 10 ^ 20 * 10 ^ 6" using x bound by (rule scaled_abs_less)
  then have "(of_int (\<bar>b\<bar> * 10 ^ 1) :: rat) < of_int (10 ^ 27)" by simp
  then have small: "\<bar>b\<bar> * 10 ^ 1 < 10 ^ 27" by (simp only: of_int_less_iff)
  have "py_round (ctx_round (cc / rc)) 1 = Inr (round_places (cc / rc) 1)"
    using x y nz small by (rule div_then_round)
  then show ?thesis
    using rc cc nz by (simp add: cost_reduction_factor_def dec_truediv_def)
qed

lemma quality_improvement_percent_value:
  assumes rq: "avg_quality_score rag_data = Some rq"
    and cq: "avg_quality_score context_data = Some cq"
    and nz: "cq \<noteq> 0"
    and scale: "has_scale 3 rq" "has_scale 3 cq"
    and bound: "\<bar>rq - cq\<bar> < 10 ^ 19"
  shows "quality_improvement_percent rag_data context_data
           = Inr (round_places ((rq - cq) / cq * 100) 2)"
proof -
  obtain r c :: int where x: "rq * 10 ^ 3 = of_int r" and y: "cq * 10 ^ 3 = of_int c"
    using scale has_scaleD by blast
  have "(rq - cq) * 10 ^ 3 = rq * 10 ^ 3 - cq * 10 ^ 3" by (rule left_diff_distrib)
  also have "\<dots> = of_int r - of_int c" by (simp only: x y)
  also have "\<dots> = of_int (r - c)" by simp
  finally have d: "(rq - cq) * 10 ^ 3 = of_int (r - c)" .
  have "(of_int \<bar>r - c\<bar> :: rat) < 10 ^ 19 * 10 ^ 3" using d bound by (rule scaled_abs_less)
  then have "(of_int (\<bar>r - c\<bar> * 30000) :: rat) < of_int (10 ^ 27)" by simp
  then have small: "\<bar>r - c\<bar> * 30000 < 10 ^ 27" by (simp only: of_int_less_iff)
  have "py_round (ctx_round (ctx_round (ctx_round (rq - cq) / cq) * 100)) 2
          = Inr (round_places ((rq - cq) / cq * 100) 2)"
    using x y nz small by (rule percent_then_round)
  then show ?thesis
    using rq cq nz
    by (simp add: quality_improvement_percent_def dec_truediv_def dec_sub_def dec_mul_def)
qed


lemma scenario_scales:
  "has_scale 2 600" "has_scale 2 3000"
  "has_scale 6 (25 / 10000)" "has_scale 6 (2 / 100)"
  "has_scale 3 (925 / 1000)" "has_scale 3 (80 / 100)"
  by code_simp+











section \<open>Empty input and missing groups\<close>

text \<open>
  C4. With no metric rows at all the query returns no group, the comparison is the empty
  dict, and the executive summary returns the report
  \<^verbatim>\<open>{"error": "No data available for analysis"}\<close> to its caller: nothing is raised, and
  no division takes place.
\<close>

theorem empty_input_no_data:
  "performance_data [] = [] \<and>
   analyze_rag_vs_context_dumping [] = Inr [] \<and>
   generate_executive_summary now [] =
     Inr [(''error'', PyStr ''No data available for analysis'')]"
proof -
  have a: "analyze_rag_vs_context_dumping [] = Inr []"
    by (rule analyze_absent) simp
  show ?thesis
    using a summary_of_empty_analysis [OF a] by (simp add: performance_data_def)
qed

text \<open>
  C5. When the rows hold no RAG record, or no CONTEXT\_DUMP record, the comparison is the
  empty dict and the executive summary is the error report; both are returned to the
  caller, neither call raises.
\<close>

theorem missing_group_empty_comparison:
  assumes "Some ''RAG'' \<notin> raw_row.processing_method ` set db \<or>
           Some ''CONTEXT_DUMP'' \<notin> raw_row.processing_method ` set db"
  shows "analyze_rag_vs_context_dumping db = Inr [] \<and>
         generate_executive_summary now db =
           Inr [(''error'', PyStr ''No data available for analysis'')]"
  using analyze_absent [OF assms] summary_of_empty_analysis by blast

theorem missing_group_empty_comparison_witness:
  "Some ''CONTEXT_DUMP'' \<notin> raw_row.processing_method ` set rag_only \<and>
   analyze_rag_vs_context_dumping rag_only = Inr [] \<and>
   generate_executive_summary ''2026-11-04T09:00:00'' rag_only =
     Inr [(''error'', PyStr ''No data available for analysis'')]"
proof -
  have h: "Some ''CONTEXT_DUMP'' \<notin> raw_row.processing_method ` set rag_only"
    by (simp add: rag_only_def metric_def)
  show ?thesis
    using h missing_group_empty_comparison [OF disjI2 [OF h], of "''2026-11-04T09:00:00''"]
    by blast
qed

text \<open>
  C10. A report the comparison returns is all or nothing: when the rows hold both a RAG
  record and a CONTEXT\_DUMP record its keys are exactly \<^verbatim>\<open>rag_metrics\<close>,
  \<^verbatim>\<open>context_dump_metrics\<close>, \<^verbatim>\<open>performance_improvement_factor\<close>,
  \<^verbatim>\<open>cost_reduction_factor\<close> and \<^verbatim>\<open>quality_improvement_percent\<close>, each once; otherwise it is
  the empty dict. No report holds a part of the five keys.
\<close>

theorem comparison_all_or_nothing:
  assumes "analyze_rag_vs_context_dumping db = Inr m"
  shows "if Some ''RAG'' \<in> raw_row.processing_method ` set db \<and>
            Some ''CONTEXT_DUMP'' \<in> raw_row.processing_method ` set db
         then map fst m = [''rag_metrics'', ''context_dump_metrics'',
                           ''performance_improvement_factor'', ''cost_reduction_factor'',
                           ''quality_improvement_percent'']
         else m = []"
proof (cases "Some ''RAG'' \<in> raw_row.processing_method ` set db \<and>
              Some ''CONTEXT_DUMP'' \<in> raw_row.processing_method ` set db")
  case True
  then have rag: "find_method ''RAG'' (performance_data db) = Some (group_row db (Some ''RAG''))"
    and ctx: "find_method ''CONTEXT_DUMP'' (performance_data db)
                = Some (group_row db (Some ''CONTEXT_DUMP''))"
    by (simp_all add: find_method_performance_data)
  from performance_improvements_present [OF rag ctx, of m] assms
  have "map fst m = [''rag_metrics'', ''context_dump_metrics'',
                     ''performance_improvement_factor'', ''cost_reduction_factor'',
                     ''quality_improvement_percent'']"
    by (auto simp: analyze_rag_vs_context_dumping_def)
  with True show ?thesis by simp
next
  case False
  then have "analyze_rag_vs_context_dumping db = Inr []"
    by (intro analyze_absent) blast
  with assms False show ?thesis by simp
qed

theorem comparison_all_or_nothing_witness:
  "analyze_rag_vs_context_dumping scenario = Inr scenario_report \<and>
   Some ''RAG'' \<in> raw_row.processing_method ` set scenario \<and>
   Some ''CONTEXT_DUMP'' \<in> raw_row.processing_method ` set scenario \<and>
   map fst scenario_report = [''rag_metrics'', ''context_dump_metrics'',
                              ''performance_improvement_factor'', ''cost_reduction_factor'',
                              ''quality_improvement_percent''] \<and>
   analyze_rag_vs_context_dumping rag_only = Inr [] \<and>
   Some ''CONTEXT_DUMP'' \<notin> raw_row.processing_method ` set rag_only"
proof -
  have h1: "analyze_rag_vs_context_dumping scenario = Inr scenario_report"
    by (rule scenario_analysis)
  have h2: "Some ''RAG'' \<in> raw_row.processing_method ` set scenario"
           "Some ''CONTEXT_DUMP'' \<in> raw_row.processing_method ` set scenario"
    by (simp_all add: scenario_def metric_def)
  have h3: "analyze_rag_vs_context_dumping rag_only = Inr []" by code_simp
  have h4: "Some ''CONTEXT_DUMP'' \<notin> raw_row.processing_method ` set rag_only"
    by (simp add: rag_only_def metric_def)
  have "map fst scenario_report = [''rag_metrics'', ''context_dump_metrics'',
                              ''performance_improvement_factor'', ''cost_reduction_factor'',
                              ''quality_improvement_percent'']"
    using comparison_all_or_nothing [OF h1] h2 by simp
  then show ?thesis using h1 h2 h3 h4 by blast
qed

section \<open>The three factors\<close>

text \<open>
  The theorems of this section and of the next are about the comparison of lines 118 to
  139 on any list of fetched rows; \<open>analyze_rag_vs_context_dumping db\<close> is that comparison
  on the rows the query returns for \<open>db\<close>. The means the query returns have the decimal
  places of its \<^verbatim>\<open>ROUND\<close>: 2 for the response time, 6 for the cost, 3 for the quality.
\<close>

text \<open>
  C1, as the code has it. With a RAG row and a CONTEXT\_DUMP row whose mean response
  times are positive, have 2 decimal places and, for CONTEXT\_DUMP, lie below \<open>10\<^sup>2\<^sup>4\<close>, the
  performance improvement factor is the CONTEXT\_DUMP mean divided by the RAG mean,
  rounded to 1 decimal (ties to even, within 0.05 of the quotient); a report that is
  returned holds this value. When the CONTEXT\_DUMP mean is at least the RAG mean this is
  the slower mean over the faster mean, and the factor is at least 1.
\<close>

theorem performance_factor_is_context_over_rag:
  assumes rag: "find_method ''RAG'' rows = Some rag_data"
    and ctx: "find_method ''CONTEXT_DUMP'' rows = Some context_data"
    and rt: "avg_response_time_ms rag_data = Some rt"
    and ct: "avg_response_time_ms context_data = Some ct"
    and scale: "has_scale 2 rt" "has_scale 2 ct"
    and pos: "0 < rt" "0 < ct"
    and bound: "ct < 10 ^ 24"
  shows "performance_improvement_factor rag_data context_data
           = Inr (round_places (ct / rt) 1) \<and>
         (\<forall>m. performance_improvements rows = Inr m \<longrightarrow>
              map_of m ''performance_improvement_factor''
                = Some (PyDec (round_places (ct / rt) 1))) \<and>
         \<bar>round_places (ct / rt) 1 - ct / rt\<bar> \<le> 1 / 20 \<and>
         (rt \<le> ct \<longrightarrow>
            round_places (ct / rt) 1 = spec_performance_improvement_factor rt ct \<and>
            1 \<le> round_places (ct / rt) 1)"
proof -
  have b: "\<bar>ct\<bar> < 10 ^ 24" using pos(2) bound by simp
  have nz: "rt \<noteq> 0" using pos(1) by simp
  have f: "performance_improvement_factor rag_data context_data
             = Inr (round_places (ct / rt) 1)"
    using rt ct nz scale b by (rule performance_improvement_factor_value)
  have r: "map_of m ''performance_improvement_factor''
             = Some (PyDec (round_places (ct / rt) 1))"
    if "performance_improvements rows = Inr m" for m
    using performance_improvements_present [OF rag ctx that] f by auto
  have e: "\<bar>round_places (ct / rt) 1 - ct / rt\<bar> \<le> 1 / 20"
    using round_places_error [of "ct / rt" 1] by simp
  have s: "round_places (ct / rt) 1 = spec_performance_improvement_factor rt ct \<and>
           1 \<le> round_places (ct / rt) 1" if "rt \<le> ct"
  proof -
    have "1 \<le> ct / rt" using pos that by simp
    then have g: "1 \<le> round_places (ct / rt) 1" by (rule round_places_ge_1)
    have "spec_performance_improvement_factor rt ct = round_places (ct / rt) 1"
      unfolding spec_performance_improvement_factor_def
      using pos(1) that by (rule round_places_ratio_spec)
    with g show ?thesis by simp
  qed
  show ?thesis using f r e s by blast
qed

theorem performance_factor_is_context_over_rag_witness:
  "find_method ''RAG'' (performance_data scenario) = Some scenario_rag \<and>
   find_method ''CONTEXT_DUMP'' (performance_data scenario) = Some scenario_context \<and>
   avg_response_time_ms scenario_rag = Some 600 \<and>
   avg_response_time_ms scenario_context = Some 3000 \<and>
   has_scale 2 600 \<and> has_scale 2 3000 \<and>
   (0::rat) < 600 \<and> (0::rat) < 3000 \<and> (3000::rat) < 10 ^ 24 \<and> (600::rat) \<le> 3000 \<and>
   performance_improvement_factor scenario_rag scenario_context
     = Inr (round_places (3000 / 600) 1) \<and>
   round_places (3000 / 600) 1 = spec_performance_improvement_factor 600 3000 \<and>
   1 \<le> round_places (3000 / 600) 1 \<and>
   round_places (3000 / 600) 1 = 5 \<and>
   report_entry (analyze_rag_vs_context_dumping scenario) ''performance_improvement_factor''
     = Some (PyDec 5)"
proof -
  have h1: "find_method ''RAG'' (performance_data scenario) = Some scenario_rag"
    by (rule scenario_rows)
  have h2: "find_method ''CONTEXT_DUMP'' (performance_data scenario) = Some scenario_context"
    by (rule scenario_rows)
  have h3: "avg_response_time_ms scenario_rag = Some 600"
    by (simp add: scenario_rag_def)
  have h4: "avg_response_time_ms scenario_context = Some 3000"
    by (simp add: scenario_context_def)
  have h5: "has_scale 2 600" "has_scale 2 3000" by (rule scenario_scales)+
  have h6: "(0::rat) < 600" "(0::rat) < 3000" "(3000::rat) < 10 ^ 24" "(600::rat) \<le> 3000"
    by simp_all
  have v: "round_places (3000 / 600) 1 = 5" by code_simp
  have w: "report_entry (analyze_rag_vs_context_dumping scenario)
             ''performance_improvement_factor'' = Some (PyDec 5)"
    by (simp add: scenario_analysis report_entry_def scenario_report_def)
  note t = performance_factor_is_context_over_rag
             [OF h1 h2 h3 h4 h5(1) h5(2) h6(1) h6(2) h6(3)]
  show ?thesis using t h1 h2 h3 h4 h5 h6 v w by blast
qed

text \<open>
  C1 as stated fails when RAG is the slower method: with a RAG mean of 3000 and a
  CONTEXT\_DUMP mean of 600 the reported factor is 0.2, where slower over faster is 5.0.
\<close>

theorem performance_factor_slower_rag_counterexample:
  "map avg_response_time_ms (performance_data rag_slower) = [Some 3000, Some 600] \<and>
   report_entry (analyze_rag_vs_context_dumping rag_slower) ''performance_improvement_factor''
     = Some (PyDec (2 / 10)) \<and>
   spec_performance_improvement_factor 3000 600 = 5 \<and>
   (2 / 10 :: rat) < 1"
  by code_simp

text \<open>
  C6, as the code has it. With a RAG row and a CONTEXT\_DUMP row whose mean costs are
  not NULL, have 6 decimal places and, for CONTEXT\_DUMP, lie below \<open>10\<^sup>2\<^sup>0\<close> in absolute
  value: when the RAG mean cost is not zero, the cost reduction factor is the
  CONTEXT\_DUMP mean cost divided by the RAG mean cost, rounded to 1 decimal, and a report
  that is returned holds this value; when moreover the CONTEXT\_DUMP mean cost is at least
  the positive RAG mean cost, this is the higher over the lower mean cost and at least 1.
  There is no guard: a RAG mean cost of zero raises DivisionByZero (InvalidOperation for
  0 / 0), and the comparison raises.
\<close>

theorem cost_factor_is_context_over_rag:
  assumes rag: "find_method ''RAG'' rows = Some rag_data"
    and ctx: "find_method ''CONTEXT_DUMP'' rows = Some context_data"
    and rc: "avg_cost_usd rag_data = Some rc"
    and cc: "avg_cost_usd context_data = Some cc"
    and scale: "has_scale 6 rc" "has_scale 6 cc"
    and bound: "\<bar>cc\<bar> < 10 ^ 20"
  shows "(rc \<noteq> 0 \<longrightarrow>
            cost_reduction_factor rag_data context_data = Inr (round_places (cc / rc) 1) \<and>
            (\<forall>m. performance_improvements rows = Inr m \<longrightarrow>
                 map_of m ''cost_reduction_factor''
                   = Some (PyDec (round_places (cc / rc) 1))) \<and>
            \<bar>round_places (cc / rc) 1 - cc / rc\<bar> \<le> 1 / 20) \<and>
         (0 < rc \<and> rc \<le> cc \<longrightarrow>
            round_places (cc / rc) 1 = spec_cost_reduction_factor rc cc \<and>
            1 \<le> round_places (cc / rc) 1) \<and>
         (rc = 0 \<longrightarrow>
            cost_reduction_factor rag_data context_data =
              Inl (if cc = 0 then InvalidOperation else DivisionByZero) \<and>
            (\<exists>e. performance_improvements rows = Inl e))"
proof -
  have f: "cost_reduction_factor rag_data context_data = Inr (round_places (cc / rc) 1)"
    if "rc \<noteq> 0"
    using rc cc that scale bound by (rule cost_reduction_factor_value)
  have r: "map_of m ''cost_reduction_factor'' = Some (PyDec (round_places (cc / rc) 1))"
    if "rc \<noteq> 0" "performance_improvements rows = Inr m" for m
    using performance_improvements_present [OF rag ctx that(2)] f [OF that(1)] by auto
  have e: "\<bar>round_places (cc / rc) 1 - cc / rc\<bar> \<le> 1 / 20"
    using round_places_error [of "cc / rc" 1] by simp
  have s: "round_places (cc / rc) 1 = spec_cost_reduction_factor rc cc \<and>
           1 \<le> round_places (cc / rc) 1" if "0 < rc" "rc \<le> cc"
  proof -
    have "1 \<le> cc / rc" using that by simp
    then have g: "1 \<le> round_places (cc / rc) 1" by (rule round_places_ge_1)
    have "spec_cost_reduction_factor rc cc = round_places (cc / rc) 1"
      unfolding spec_cost_reduction_factor_def
      using that by (rule round_places_ratio_spec)
    with g show ?thesis by simp
  qed
  have z: "cost_reduction_factor rag_data context_data =
             Inl (if cc = 0 then InvalidOperation else DivisionByZero)" if "rc = 0"
    using rc cc that by (simp add: cost_reduction_factor_zero)
  have x: "\<exists>e. performance_improvements rows = Inl e" if "rc = 0"
  proof (cases "performance_improvements rows")
    case (Inl e)
    then show ?thesis by blast
  next
    case (Inr m)
    then show ?thesis
      using performance_improvements_present [OF rag ctx, of m] z [OF that] by auto
  qed
  show ?thesis using f r e s z x by blast
qed

theorem cost_factor_is_context_over_rag_witness:
  "find_method ''RAG'' (performance_data scenario) = Some scenario_rag \<and>
   find_method ''CONTEXT_DUMP'' (performance_data scenario) = Some scenario_context \<and>
   avg_cost_usd scenario_rag = Some (25 / 10000) \<and>
   avg_cost_usd scenario_context = Some (2 / 100) \<and>
   has_scale 6 (25 / 10000) \<and> has_scale 6 (2 / 100) \<and>
   \<bar>2 / 100 :: rat\<bar> < 10 ^ 20 \<and>
   (25 / 10000 :: rat) \<noteq> 0 \<and> (0::rat) < 25 / 10000 \<and> (25 / 10000 :: rat) \<le> 2 / 100 \<and>
   cost_reduction_factor scenario_rag scenario_context
     = Inr (round_places ((2 / 100) / (25 / 10000)) 1) \<and>
   round_places ((2 / 100) / (25 / 10000)) 1
     = spec_cost_reduction_factor (25 / 10000) (2 / 100) \<and>
   1 \<le> round_places ((2 / 100) / (25 / 10000)) 1 \<and>
   round_places ((2 / 100) / (25 / 10000)) 1 = 8 \<and>
   report_entry (analyze_rag_vs_context_dumping scenario) ''cost_reduction_factor''
     = Some (PyDec 8)"
proof -
  have h1: "find_method ''RAG'' (performance_data scenario) = Some scenario_rag"
    by (rule scenario_rows)
  have h2: "find_method ''CONTEXT_DUMP'' (performance_data scenario) = Some scenario_context"
    by (rule scenario_rows)
  have h3: "avg_cost_usd scenario_rag = Some (25 / 10000)"
    by (simp add: scenario_rag_def)
  have h4: "avg_cost_usd scenario_context = Some (2 / 100)"
    by (simp add: scenario_context_def)
  have h5: "has_scale 6 (25 / 10000)" "has_scale 6 (2 / 100)" by (rule scenario_scales)+
  have h6: "\<bar>2 / 100 :: rat\<bar> < 10 ^ 20" by simp
  have h7: "(25 / 10000 :: rat) \<noteq> 0" "(0::rat) < 25 / 10000" "(25 / 10000 :: rat) \<le> 2 / 100"
    by simp_all
  have v: "round_places ((2 / 100) / (25 / 10000)) 1 = 8" by code_simp
  have w: "report_entry (analyze_rag_vs_context_dumping scenario) ''cost_reduction_factor''
             = Some (PyDec 8)"
    by (simp add: scenario_analysis report_entry_def scenario_report_def)
  note t = cost_factor_is_context_over_rag [OF h1 h2 h3 h4 h5(1) h5(2) h6]
  show ?thesis using t h1 h2 h3 h4 h5 h6 h7 v w by blast
qed

text \<open>
  C6 as stated fails when RAG is the dearer method: with a RAG mean cost of 0.02 and a
  CONTEXT\_DUMP mean cost of 0.0025 the reported factor is 0.1, where higher over lower
  is 8.0.
\<close>

theorem cost_factor_dearer_rag_counterexample:
  "map avg_cost_usd (performance_data rag_slower) = [Some (2 / 100), Some (25 / 10000)] \<and>
   report_entry (analyze_rag_vs_context_dumping rag_slower) ''cost_reduction_factor''
     = Some (PyDec (1 / 10)) \<and>
   spec_cost_reduction_factor (2 / 100) (25 / 10000) = 8 \<and>
   (1 / 10 :: rat) < 1"
  by code_simp

text \<open>
  C7, as the code has it. With a RAG row and a CONTEXT\_DUMP row whose mean qualities are
  not NULL, have 3 decimal places and differ by less than \<open>10\<^sup>1\<^sup>9\<close>, and a CONTEXT\_DUMP
  mean quality that is not zero, the quality improvement percent is (RAG mean quality -
  CONTEXT\_DUMP mean quality) / CONTEXT\_DUMP mean quality * 100, rounded to 2 decimals
  (ties to even, within 0.005 of the exact value); a report that is returned holds this
  value. When the RAG mean quality is at least the positive CONTEXT\_DUMP mean quality,
  this is (better - baseline) / baseline * 100 and not negative.
\<close>

theorem quality_percent_is_rag_over_context:
  assumes rag: "find_method ''RAG'' rows = Some rag_data"
    and ctx: "find_method ''CONTEXT_DUMP'' rows = Some context_data"
    and rq: "avg_quality_score rag_data = Some rq"
    and cq: "avg_quality_score context_data = Some cq"
    and scale: "has_scale 3 rq" "has_scale 3 cq"
    and nz: "cq \<noteq> 0"
    and bound: "\<bar>rq - cq\<bar> < 10 ^ 19"
  shows "quality_improvement_percent rag_data context_data
           = Inr (round_places ((rq - cq) / cq * 100) 2) \<and>
         (\<forall>m. performance_improvements rows = Inr m \<longrightarrow>
              map_of m ''quality_improvement_percent''
                = Some (PyDec (round_places ((rq - cq) / cq * 100) 2))) \<and>
         \<bar>round_places ((rq - cq) / cq * 100) 2 - (rq - cq) / cq * 100\<bar> \<le> 1 / 200 \<and>
         (0 < cq \<and> cq \<le> rq \<longrightarrow>
            round_places ((rq - cq) / cq * 100) 2 = spec_quality_improvement_percent rq cq \<and>
            0 \<le> round_places ((rq - cq) / cq * 100) 2)"
proof -
  let ?v = "round_places ((rq - cq) / cq * 100) 2"
  have f: "quality_improvement_percent rag_data context_data = Inr ?v"
    using rq cq nz scale bound by (rule quality_improvement_percent_value)
  have r: "map_of m ''quality_improvement_percent'' = Some (PyDec ?v)"
    if "performance_improvements rows = Inr m" for m
    using performance_improvements_present [OF rag ctx that] f by auto
  have e: "\<bar>?v - (rq - cq) / cq * 100\<bar> \<le> 1 / 200"
    using round_places_error [of "(rq - cq) / cq * 100" 2] by simp
  have s: "?v = spec_quality_improvement_percent rq cq \<and> 0 \<le> ?v" if "0 < cq" "cq \<le> rq"
  proof -
    have "0 \<le> (rq - cq) / cq * 100" using that by simp
    then have g: "0 \<le> ?v" by (rule round_places_nonneg)
    have "spec_quality_improvement_percent rq cq = ?v"
      using that by (simp add: spec_quality_improvement_percent_def max_def min_def)
    with g show ?thesis by simp
  qed
  show ?thesis using f r e s by blast
qed

theorem quality_percent_is_rag_over_context_witness:
  "find_method ''RAG'' (performance_data scenario) = Some scenario_rag \<and>
   find_method ''CONTEXT_DUMP'' (performance_data scenario) = Some scenario_context \<and>
   avg_quality_score scenario_rag = Some (925 / 1000) \<and>
   avg_quality_score scenario_context = Some (80 / 100) \<and>
   has_scale 3 (925 / 1000) \<and> has_scale 3 (80 / 100) \<and>
   (80 / 100 :: rat) \<noteq> 0 \<and> \<bar>925 / 1000 - 80 / 100 :: rat\<bar> < 10 ^ 19 \<and>
   (0::rat) < 80 / 100 \<and> (80 / 100 :: rat) \<le> 925 / 1000 \<and>
   quality_improvement_percent scenario_rag scenario_context
     = Inr (round_places ((925 / 1000 - 80 / 100) / (80 / 100) * 100) 2) \<and>
   round_places ((925 / 1000 - 80 / 100) / (80 / 100) * 100) 2
     = spec_quality_improvement_percent (925 / 1000) (80 / 100) \<and>
   round_places ((925 / 1000 - 80 / 100) / (80 / 100) * 100) 2 = 1562 / 100 \<and>
   report_entry (analyze_rag_vs_context_dumping scenario) ''quality_improvement_percent''
     = Some (PyDec (1562 / 100))"
proof -
  have h1: "find_method ''RAG'' (performance_data scenario) = Some scenario_rag"
    by (rule scenario_rows)
  have h2: "find_method ''CONTEXT_DUMP'' (performance_data scenario) = Some scenario_context"
    by (rule scenario_rows)
  have h3: "avg_quality_score scenario_rag = Some (925 / 1000)"
    by (simp add: scenario_rag_def)
  have h4: "avg_quality_score scenario_context = Some (80 / 100)"
    by (simp add: scenario_context_def)
  have h5: "has_scale 3 (925 / 1000)" "has_scale 3 (80 / 100)" by (rule scenario_scales)+
  have h6: "(80 / 100 :: rat) \<noteq> 0" "\<bar>925 / 1000 - 80 / 100 :: rat\<bar> < 10 ^ 19"
           "(0::rat) < 80 / 100" "(80 / 100 :: rat) \<le> 925 / 1000"
    by simp_all
  have v: "round_places ((925 / 1000 - 80 / 100) / (80 / 100) * 100) 2 = 1562 / 100"
    by code_simp
  have w: "report_entry (analyze_rag_vs_context_dumping scenario)
             ''quality_improvement_percent'' = Some (PyDec (1562 / 100))"
    by (simp add: scenario_analysis report_entry_def scenario_report_def)
  note t = quality_percent_is_rag_over_context [OF h1 h2 h3 h4 h5(1) h5(2) h6(1) h6(2)]
  show ?thesis using t h1 h2 h3 h4 h5 h6 v w by blast
qed

text \<open>
  C7 as stated fails when RAG has the lower mean quality: with a RAG mean quality of 0.80
  and a CONTEXT\_DUMP mean quality of 0.925 the reported percent is -13.51, where (better
  - baseline) / baseline * 100 is 15.62.
\<close>

theorem quality_percent_lower_rag_counterexample:
  "map avg_quality_score (performance_data rag_slower) = [Some (80 / 100), Some (925 / 1000)] \<and>
   report_entry (analyze_rag_vs_context_dumping rag_slower) ''quality_improvement_percent''
     = Some (PyDec (- (1351 / 100))) \<and>
   spec_quality_improvement_percent (80 / 100) (925 / 1000) = 1562 / 100"
  by code_simp

section \<open>Zero denominators\<close>




section \<open>The end-to-end scenario\<close>

text \<open>
  C3, as the code has it. On the three records of the scenario the query returns the RAG
  aggregate (count 2, mean time 600, mean cost 0.0025, mean quality 0.925) and the
  CONTEXT\_DUMP aggregate (count 1, mean time 3000), and the report holds the performance
  improvement factor 5.0, the cost reduction factor 8.0 and the quality improvement
  percent 15.62: the exact value 15.625 is a tie, which \<^verbatim>\<open>round\<close> resolves to the even
  digit.
\<close>

theorem scenario_report_half_even:
  "find_method ''RAG'' (performance_data scenario) =
     Some \<lparr> processing_method = Some ''RAG'', query_count = 2,
            avg_response_time_ms = Some 600, avg_cost_usd = Some (25 / 10000),
            avg_quality_score = Some (925 / 1000), avg_user_satisfaction = None \<rparr> \<and>
   find_method ''CONTEXT_DUMP'' (performance_data scenario) =
     Some \<lparr> processing_method = Some ''CONTEXT_DUMP'', query_count = 1,
            avg_response_time_ms = Some 3000, avg_cost_usd = Some (2 / 100),
            avg_quality_score = Some (80 / 100), avg_user_satisfaction = None \<rparr> \<and>
   report_entry (analyze_rag_vs_context_dumping scenario) ''performance_improvement_factor''
     = Some (PyDec 5) \<and>
   report_entry (analyze_rag_vs_context_dumping scenario) ''cost_reduction_factor''
     = Some (PyDec 8) \<and>
   report_entry (analyze_rag_vs_context_dumping scenario) ''quality_improvement_percent''
     = Some (PyDec (1562 / 100)) \<and>
   (925 / 1000 - 80 / 100) / (80 / 100) * 100 = (15625 / 1000 :: rat)"
  by code_simp

text \<open>C3 as stated fails: the quality improvement percent of the scenario is not 15.63.\<close>

theorem scenario_quality_counterexample:
  "report_entry (analyze_rag_vs_context_dumping scenario) ''quality_improvement_percent''
     = Some (PyDec (1562 / 100)) \<and>
   report_entry (analyze_rag_vs_context_dumping scenario) ''quality_improvement_percent''
     \<noteq> Some (PyDec (1563 / 100))"
  by code_simp

section \<open>The executive summary\<close>



text \<open>
  C9, as the code has it. The executive summary holds the clock reading under
  \<^verbatim>\<open>timestamp\<close>. Two calls over the same rows agree on everything else (they raise the
  same exception, or return reports that differ at most in \<^verbatim>\<open>timestamp\<close>). The numbers
  of a summary of a non-empty analysis are the three factors of the analysis, the ROI
  computed from the first two, and the analysis itself under \<^verbatim>\<open>raw_analysis\<close>.
\<close>

theorem summary_determined_up_to_timestamp:
  "without_timestamp (generate_executive_summary t1 db)
     = without_timestamp (generate_executive_summary t2 db) \<and>
   (\<forall>a s. analyze_rag_vs_context_dumping db = Inr a \<and> a \<noteq> [] \<and>
          generate_executive_summary t1 db = Inr s \<longrightarrow>
      (\<exists>p c q roi.
         map_of a ''performance_improvement_factor'' = Some (PyDec p) \<and>
         map_of a ''cost_reduction_factor'' = Some (PyDec c) \<and>
         map_of a ''quality_improvement_percent'' = Some (PyDec q) \<and>
         roi_percent (PyDec p) (PyDec c) = Inr roi \<and>
         s = [(''timestamp'', PyStr t1),
              (''key_achievements'', PyDict
                 [(''performance_improvement'',
                     PyFormat (PyDec p) ''x faster than context dumping''),
                  (''cost_reduction'', PyFormat (PyDec c) ''x cost reduction achieved''),
                  (''quality_improvement'', PyFormat (PyDec q) ''% quality increase''),
                  (''roi_delivered'', PyFormat roi ''% return on investment'')]),
              (''business_impact'', PyDict business_impact),
              (''strategic_recommendations'', PyList strategic_recommendations),
              (''raw_analysis'', PyDict a)]))"
proof -
  have det: "without_timestamp (generate_executive_summary t1 db)
               = without_timestamp (generate_executive_summary t2 db)"
  proof (cases "analyze_rag_vs_context_dumping db")
    case (Inl e)
    then show ?thesis by (simp add: summary_raises)
  next
    case (Inr a)
    show ?thesis
    proof (cases "a = []")
      case True
      with Inr show ?thesis by (simp add: summary_of_empty_analysis)
    next
      case False
      from analysis_nonempty [OF Inr False] obtain rm cm p c q where
        a: "a = [(''rag_metrics'', rm), (''context_dump_metrics'', cm),
                 (''performance_improvement_factor'', PyDec p),
                 (''cost_reduction_factor'', PyDec c),
                 (''quality_improvement_percent'', PyDec q)]"
        by blast
      show ?thesis
        by (simp add: summary_of_analysis [OF Inr a] without_timestamp_def)
    qed
  qed
  have num: "\<exists>p c q roi.
         map_of a ''performance_improvement_factor'' = Some (PyDec p) \<and>
         map_of a ''cost_reduction_factor'' = Some (PyDec c) \<and>
         map_of a ''quality_improvement_percent'' = Some (PyDec q) \<and>
         roi_percent (PyDec p) (PyDec c) = Inr roi \<and>
         s = [(''timestamp'', PyStr t1),
              (''key_achievements'', PyDict
                 [(''performance_improvement'',
                     PyFormat (PyDec p) ''x faster than context dumping''),
                  (''cost_reduction'', PyFormat (PyDec c) ''x cost reduction achieved''),
                  (''quality_improvement'', PyFormat (PyDec q) ''% quality increase''),
                  (''roi_delivered'', PyFormat roi ''% return on investment'')]),
              (''business_impact'', PyDict business_impact),
              (''strategic_recommendations'', PyList strategic_recommendations),
              (''raw_analysis'', PyDict a)]"
    if an: "analyze_rag_vs_context_dumping db = Inr a" and ne: "a \<noteq> []"
      and s: "generate_executive_summary t1 db = Inr s" for a s
  proof -
    from analysis_nonempty [OF an ne] obtain rm cm p c q where
      a: "a = [(''rag_metrics'', rm), (''context_dump_metrics'', cm),
               (''performance_improvement_factor'', PyDec p),
               (''cost_reduction_factor'', PyDec c),
               (''quality_improvement_percent'', PyDec q)]"
      by blast
    have m: "map_of a ''performance_improvement_factor'' = Some (PyDec p)"
            "map_of a ''cost_reduction_factor'' = Some (PyDec c)"
            "map_of a ''quality_improvement_percent'' = Some (PyDec q)"
      by (simp_all add: a)
    show ?thesis
      using summary_of_analysis [OF an a, of t1] s m roi_percent_dec [of p c]
      by auto
  qed
  show ?thesis using det num by blast
qed

theorem summary_determined_up_to_timestamp_witness:
  "\<exists>s. without_timestamp (generate_executive_summary ''2026-11-04T09:00:00'' scenario)
          = without_timestamp (generate_executive_summary ''2026-11-05T09:00:00'' scenario) \<and>
        analyze_rag_vs_context_dumping scenario = Inr scenario_report \<and>
        scenario_report \<noteq> [] \<and>
        generate_executive_summary ''2026-11-04T09:00:00'' scenario = Inr s \<and>
        (\<exists>roi.
           roi_percent (PyDec 5) (PyDec 8) = Inr roi \<and>
           s = [(''timestamp'', PyStr ''2026-11-04T09:00:00''),
                (''key_achievements'', PyDict
                   [(''performance_improvement'',
                       PyFormat (PyDec 5) ''x faster than context dumping''),
                    (''cost_reduction'', PyFormat (PyDec 8) ''x cost reduction achieved''),
                    (''quality_improvement'',
                       PyFormat (PyDec (1562 / 100)) ''% quality increase''),
                    (''roi_delivered'', PyFormat roi ''% return on investment'')]),
                (''business_impact'', PyDict business_impact),
                (''strategic_recommendations'', PyList strategic_recommendations),
                (''raw_analysis'', PyDict scenario_report)])"
proof -
  have h1: "analyze_rag_vs_context_dumping scenario = Inr scenario_report"
    by (rule scenario_analysis)
  have h2: "scenario_report \<noteq> []" by (simp add: scenario_report_def)
  obtain s where h3: "generate_executive_summary ''2026-11-04T09:00:00'' scenario = Inr s"
    using summary_of_analysis [OF h1 scenario_report_def] by blast
  note t = summary_determined_up_to_timestamp
             [of "''2026-11-04T09:00:00''" scenario "''2026-11-05T09:00:00''"]
  from t h1 h2 h3 obtain p c q roi where
    m: "map_of scenario_report ''performance_improvement_factor'' = Some (PyDec p)"
       "map_of scenario_report ''cost_reduction_factor'' = Some (PyDec c)"
       "map_of scenario_report ''quality_improvement_percent'' = Some (PyDec q)"
    and r: "roi_percent (PyDec p) (PyDec c) = Inr roi"
    and s: "s = [(''timestamp'', PyStr ''2026-11-04T09:00:00''),
              (''key_achievements'', PyDict
                 [(''performance_improvement'',
                     PyFormat (PyDec p) ''x faster than context dumping''),
                  (''cost_reduction'', PyFormat (PyDec c) ''x cost reduction achieved''),
                  (''quality_improvement'', PyFormat (PyDec q) ''% quality increase''),
                  (''roi_delivered'', PyFormat roi ''% return on investment'')]),
              (''business_impact'', PyDict business_impact),
              (''strategic_recommendations'', PyList strategic_recommendations),
              (''raw_analysis'', PyDict scenario_report)]"
    by blast
  from m have "p = 5" "c = 8" "q = 1562 / 100"
    by (simp_all add: scenario_report_def)
  with r s t h1 h2 h3 show ?thesis by blast
qed

text \<open>
  C9 as stated fails: two calls over the same rows at different times return different
  reports.
\<close>

theorem summary_timestamp_counterexample:
  "generate_executive_summary ''2026-11-04T09:00:00'' scenario
     \<noteq> generate_executive_summary ''2026-11-05T09:00:00'' scenario"
  by code_simp

end
